theory Spec2Isabelle
  imports Main "HOL-Library.Sublist"
begin

section \<open>The task record and the component state of App.tsx\<close>

text \<open>
  The source declares
  \<^verbatim>\<open>type Task = { id: number; title: string; dueDate: string; isDone: boolean }\<close>.
  The field \<^verbatim>\<open>id\<close> is written \<open>task_id\<close> here, since \<open>id\<close> is the identity function of HOL.
  An id is a reading of \<^verbatim>\<open>Date.now()\<close>, a whole number of milliseconds, hence an \<open>int\<close>.
\<close>

record Task =
  task_id :: int
  title :: string
  dueDate :: string
  isDone :: bool

text \<open>
  The state of the component: the values held by \<^verbatim>\<open>useState\<close> and \<^verbatim>\<open>useRef\<close>, and the
  part of the browser the handlers write to, its table of pending timeouts. The two input
  fields \<^verbatim>\<open>title\<close> and \<^verbatim>\<open>dueDate\<close> of the source are \<open>titleInput\<close> and \<open>dueDateInput\<close>,
  the plain names being the fields of a task. Every timeout the component ever registers has
  the callback \<^verbatim>\<open>() => setMessage('')\<close>, so a pending timeout is its handle and the time at
  which it is due. Handles are positive, as the browser's are: \<open>lastHandle\<close> is the last
  one given out and the next one is its successor.
\<close>

record App =
  tasks :: "Task list"
  titleInput :: string
  dueDateInput :: string
  message :: string
  messageTimeoutRef :: "nat option"
  timers :: "(nat \<times> int) list"
  lastHandle :: nat

definition initialApp :: "Task list \<Rightarrow> string \<Rightarrow> App" where
  "initialApp loaded todayText =
     \<lparr>tasks = loaded, titleInput = [], dueDateInput = todayText, message = [],
      messageTimeoutRef = None, timers = [], lastHandle = 0\<rparr>"

section \<open>The message texts\<close>

text \<open>
  The texts of the source are Japanese; they are kept as their UTF-8 bytes.
  \<open>msgInputRequired\<close> is the warning "enter a task name and a date", \<open>msgAdded\<close> is
  "the task was added", \<open>msgDeleted\<close> is "the task was deleted" and \<open>msgCancelled\<close> is
  "cancelled".
\<close>

definition msgInputRequired :: string where
  "msgInputRequired =
     [CHR 0xE2, CHR 0x9A, CHR 0xA0, CHR 0x20, CHR 0xE3, CHR 0x82, CHR 0xBF, CHR 0xE3, CHR 0x82,
      CHR 0xB9, CHR 0xE3, CHR 0x82, CHR 0xAF, CHR 0xE5, CHR 0x90, CHR 0x8D, CHR 0xE3, CHR 0x81,
      CHR 0xA8, CHR 0xE6, CHR 0x97, CHR 0xA5, CHR 0xE4, CHR 0xBB, CHR 0x98, CHR 0xE3, CHR 0x82,
      CHR 0x92, CHR 0xE5, CHR 0x85, CHR 0xA5, CHR 0xE5, CHR 0x8A, CHR 0x9B, CHR 0xE3, CHR 0x81,
      CHR 0x97, CHR 0xE3, CHR 0x81, CHR 0xA6, CHR 0xE3, CHR 0x81, CHR 0x8F, CHR 0xE3, CHR 0x81,
      CHR 0xA0, CHR 0xE3, CHR 0x81, CHR 0x95, CHR 0xE3, CHR 0x81, CHR 0x84]"

definition msgAdded :: string where
  "msgAdded =
     [CHR 0xE2, CHR 0x9C, CHR 0x85, CHR 0x20, CHR 0xE3, CHR 0x82, CHR 0xBF, CHR 0xE3, CHR 0x82,
      CHR 0xB9, CHR 0xE3, CHR 0x82, CHR 0xAF, CHR 0xE3, CHR 0x82, CHR 0x92, CHR 0xE8, CHR 0xBF,
      CHR 0xBD, CHR 0xE5, CHR 0x8A, CHR 0xA0, CHR 0xE3, CHR 0x81, CHR 0x97, CHR 0xE3, CHR 0x81,
      CHR 0xBE, CHR 0xE3, CHR 0x81, CHR 0x97, CHR 0xE3, CHR 0x81, CHR 0x9F, CHR 0xEF, CHR 0xBC,
      CHR 0x81]"

definition msgDeleted :: string where
  "msgDeleted =
     [CHR 0xF0, CHR 0x9F, CHR 0x9A, CHR 0xAE, CHR 0x20, CHR 0xE3, CHR 0x82, CHR 0xBF, CHR 0xE3,
      CHR 0x82, CHR 0xB9, CHR 0xE3, CHR 0x82, CHR 0xAF, CHR 0xE3, CHR 0x82, CHR 0x92, CHR 0xE5,
      CHR 0x89, CHR 0x8A, CHR 0xE9, CHR 0x99, CHR 0xA4, CHR 0xE3, CHR 0x81, CHR 0x97, CHR 0xE3,
      CHR 0x81, CHR 0xBE, CHR 0xE3, CHR 0x81, CHR 0x97, CHR 0xE3, CHR 0x81, CHR 0x9F, CHR 0xE3,
      CHR 0x80, CHR 0x82]"

definition msgCancelled :: string where
  "msgCancelled =
     [CHR 0xE3, CHR 0x82, CHR 0xAD, CHR 0xE3, CHR 0x83, CHR 0xA3, CHR 0xE3, CHR 0x83, CHR 0xB3,
      CHR 0xE3, CHR 0x82, CHR 0xBB, CHR 0xE3, CHR 0x83, CHR 0xAB, CHR 0xE3, CHR 0x81, CHR 0x95,
      CHR 0xE3, CHR 0x82, CHR 0x8C, CHR 0xE3, CHR 0x81, CHR 0xBE, CHR 0xE3, CHR 0x81, CHR 0x97,
      CHR 0xE3, CHR 0x81, CHR 0x9F]"

section \<open>The transient message: showMessage and the browser's timeouts\<close>

text \<open>
  \<^verbatim>\<open>setTimeout(f, delay)\<close> at time \<open>now\<close> registers a timeout due at \<open>now + delay\<close> and
  returns its handle; \<^verbatim>\<open>clearTimeout(h)\<close> drops the pending timeout with handle \<open>h\<close> and
  does nothing when there is none.
\<close>

definition setTimeout :: "int \<Rightarrow> int \<Rightarrow> App \<Rightarrow> nat \<times> App" where
  "setTimeout delay now s =
     (let h = Suc (lastHandle s)
      in (h, s\<lparr>timers := timers s @ [(h, now + delay)], lastHandle := h\<rparr>))"

definition clearTimeout :: "nat \<Rightarrow> App \<Rightarrow> App" where
  "clearTimeout h s = s\<lparr>timers := filter (\<lambda>p. fst p \<noteq> h) (timers s)\<rparr>"

text \<open>
  \<^verbatim>\<open>
  const showMessage = (msg: string) => {
    setMessage(msg);
    if (messageTimeoutRef.current) clearTimeout(messageTimeoutRef.current);
    messageTimeoutRef.current = setTimeout(() => setMessage(''), 3000);
  };
  \<close>
  The test of the reference is JavaScript's truthiness: \<^verbatim>\<open>null\<close> and the number 0 fail it.
\<close>

definition showMessage :: "string \<Rightarrow> int \<Rightarrow> App \<Rightarrow> App" where
  "showMessage msg now s =
     (let s1 = s\<lparr>message := msg\<rparr>;
          s2 = (case messageTimeoutRef s1 of
                  None \<Rightarrow> s1
                | Some h \<Rightarrow> if h = 0 then s1 else clearTimeout h s1);
          (h', s3) = setTimeout 3000 now s2
      in s3\<lparr>messageTimeoutRef := Some h'\<rparr>)"

text \<open>
  The event loop up to time \<open>t\<close>: every pending timeout due at or before \<open>t\<close> runs its
  callback, which clears the message, and leaves the table. The reference keeps its stale
  handle, as in the source, where nothing resets it.
\<close>

definition advance :: "int \<Rightarrow> App \<Rightarrow> App" where
  "advance t s =
     (if \<exists>p \<in> set (timers s). snd p \<le> t
      then s\<lparr>message := [], timers := filter (\<lambda>p. \<not> snd p \<le> t) (timers s)\<rparr>
      else s)"

section \<open>TaskStore: addTask, deleteTask, toggleTaskDone\<close>

text \<open>
  \<^verbatim>\<open>
  const addTask = () => {
    if (!title || !dueDate) { showMessage(...); return; }
    const newTask: Task = { id: Date.now(), title, dueDate, isDone: false };
    setTasks([newTask, ...tasks]);
    setTitle(''); setDueDate('');
    showMessage(...);
  };
  \<close>
  \<open>now\<close> is the clock reading of the call: the value of \<^verbatim>\<open>Date.now()\<close> and the time at
  which the timeout is registered. A string fails the truthiness test exactly when it is
  empty.
\<close>

definition addTask :: "int \<Rightarrow> App \<Rightarrow> App" where
  "addTask now s =
     (if titleInput s = [] \<or> dueDateInput s = []
      then showMessage msgInputRequired now s
      else
        let newTask = \<lparr>task_id = now, title = titleInput s, dueDate = dueDateInput s,
                        isDone = False\<rparr>
        in showMessage msgAdded now
             (s\<lparr>tasks := newTask # tasks s, titleInput := [], dueDateInput := []\<rparr>))"

text \<open>
  \<^verbatim>\<open>
  const deleteTask = (id: number) => {
    if (window.confirm(...)) {
      setTasks(tasks.filter((task) => task.id !== id));
      showMessage(deleted);
    } else { showMessage(cancelled); }
  };
  \<close>
  The answer of the confirmation dialog is the argument \<open>confirmed\<close>.
\<close>

definition deleteTask :: "int \<Rightarrow> bool \<Rightarrow> int \<Rightarrow> App \<Rightarrow> App" where
  "deleteTask i confirmed now s =
     (if confirmed
      then showMessage msgDeleted now (s\<lparr>tasks := filter (\<lambda>task. task_id task \<noteq> i) (tasks s)\<rparr>)
      else showMessage msgCancelled now s)"

text \<open>
  \<^verbatim>\<open>
  const toggleTaskDone = (id: number) => {
    const updated = tasks.map((task) =>
      task.id === id ? { ...task, isDone: !task.isDone } : task);
    setTasks(updated);
  };
  \<close>
\<close>

definition toggleTaskDone :: "int \<Rightarrow> App \<Rightarrow> App" where
  "toggleTaskDone i s =
     s\<lparr>tasks := map (\<lambda>task. if task_id task = i then task\<lparr>isDone := \<not> isDone task\<rparr> else task)
                    (tasks s)\<rparr>"

section \<open>Dates: the part of the JavaScript Date object the component uses\<close>

text \<open>
  A \<^verbatim>\<open>Date\<close> holds a time value, a whole number of milliseconds since the epoch in UTC, or
  is an Invalid Date (time value NaN). Local time is UTC plus the offset \<open>tz\<close> of the
  browser's time zone, in milliseconds; the offset is taken as fixed (no daylight-saving
  change inside the week looked at), and the bound of the time value (8.64e15 ms either side
  of the epoch) is not modelled. \<open>Day\<close>, \<open>TimeWithinDay\<close>, \<open>WeekDay\<close> (0 is Sunday),
  \<open>LocalTime\<close>, \<open>UTC\<close> and \<open>MakeDate\<close> are the abstract operations of ECMAScript.
\<close>

datatype Date = InvalidDate | TimeValue int

definition msPerDay :: int where
  "msPerDay = 86400000"

definition Day :: "int \<Rightarrow> int" where
  "Day t = t div msPerDay"

definition TimeWithinDay :: "int \<Rightarrow> int" where
  "TimeWithinDay t = t mod msPerDay"

definition WeekDay :: "int \<Rightarrow> int" where
  "WeekDay t = (Day t + 4) mod 7"

definition LocalTime :: "int \<Rightarrow> int \<Rightarrow> int" where
  "LocalTime tz t = t + tz"

definition UTC :: "int \<Rightarrow> int \<Rightarrow> int" where
  "UTC tz t = t - tz"

definition MakeDate :: "int \<Rightarrow> int \<Rightarrow> int" where
  "MakeDate day time = day * msPerDay + time"

text \<open>
  The civil calendar: \<open>civil_from_days\<close> gives the year, the month (1 to 12) and the day of
  the month (1 to 31) of a day number, \<open>days_from_civil\<close> the day number of a civil date
  (proleptic Gregorian calendar, day 0 is 1970-01-01).
\<close>

definition civil_from_days :: "int \<Rightarrow> int \<times> int \<times> int" where
  "civil_from_days z0 =
     (let z = z0 + 719468;
          era = z div 146097;
          doe = z mod 146097;
          yoe = (doe - doe div 1460 + doe div 36524 - doe div 146096) div 365;
          doy = doe - (365 * yoe + yoe div 4 - yoe div 100);
          mp = (5 * doy + 2) div 153;
          d = doy - (153 * mp + 2) div 5 + 1;
          m = (if mp < 10 then mp + 3 else mp - 9);
          y = yoe + era * 400
      in (if m \<le> 2 then y + 1 else y, m, d))"

definition days_from_civil :: "int \<Rightarrow> int \<Rightarrow> int \<Rightarrow> int" where
  "days_from_civil y0 m d =
     (let y = (if m \<le> 2 then y0 - 1 else y0);
          era = y div 400;
          yoe = y mod 400;
          doy = (153 * (if m > 2 then m - 3 else m + 9) + 2) div 5 + d - 1;
          doe = yoe * 365 + yoe div 4 - yoe div 100 + doy
      in era * 146097 + doe - 719468)"

definition DateFromTime :: "int \<Rightarrow> int" where
  "DateFromTime t = snd (snd (civil_from_days (Day t)))"

text \<open>
  \<^verbatim>\<open>getDay()\<close> is the local day of the week and \<^verbatim>\<open>getDate()\<close> the local day of the month.
  \<^verbatim>\<open>setDate(dt)\<close> keeps the local year, month and time of day and sets the day of the
  month, which may lie outside the month (0, negative, past its end) and then counts on
  into the neighbouring months: the new local day is the first of the month, that is
  \<open>Day - (DateFromTime - 1)\<close>, plus \<open>dt - 1\<close>.
\<close>

definition getDay :: "int \<Rightarrow> int \<Rightarrow> int" where
  "getDay tz t = WeekDay (LocalTime tz t)"

definition getDate :: "int \<Rightarrow> int \<Rightarrow> int" where
  "getDate tz t = DateFromTime (LocalTime tz t)"

definition setDate :: "int \<Rightarrow> int \<Rightarrow> int \<Rightarrow> int" where
  "setDate tz dt t =
     (let lt = LocalTime tz t;
          firstOfMonth = Day lt - (DateFromTime lt - 1)
      in UTC tz (MakeDate (firstOfMonth + dt - 1) (TimeWithinDay lt)))"

text \<open>
  \<^verbatim>\<open>toDateString()\<close> renders the local calendar day of a valid date ("Mon Jun 10 2024")
  and gives "Invalid Date" otherwise. Two renderings are the same text exactly when they
  name the same local day, so the model keeps the local day number in place of the text.
\<close>

datatype DateString = InvalidDateString | DayString int

definition toDateString :: "int \<Rightarrow> Date \<Rightarrow> DateString" where
  "toDateString tz d =
     (case d of InvalidDate \<Rightarrow> InvalidDateString
      | TimeValue t \<Rightarrow> DayString (Day (LocalTime tz t)))"

text \<open>
  The relational operators turn both dates into their time values; a comparison with NaN
  is false.
\<close>

fun geDate :: "Date \<Rightarrow> Date \<Rightarrow> bool" where
  "geDate (TimeValue a) (TimeValue b) = (a \<ge> b)"
| "geDate _ _ = False"

fun leDate :: "Date \<Rightarrow> Date \<Rightarrow> bool" where
  "leDate (TimeValue a) (TimeValue b) = (a \<le> b)"
| "leDate _ _ = False"

text \<open>
  \<^verbatim>\<open>
  const isSameDay = (d1: Date, d2: Date) => d1.toDateString() === d2.toDateString();

  const isInThisWeek = (date: Date) => {
    const now = new Date();
    const start = new Date(now);
    start.setDate(now.getDate() - now.getDay());
    const end = new Date(now);
    end.setDate(now.getDate() + (6 - now.getDay()));
    return date >= start && date <= end && !isSameDay(date, now);
  };
  \<close>
  \<open>clock\<close> is the reading of the clock that \<^verbatim>\<open>new Date()\<close> takes.
\<close>

definition isSameDay :: "int \<Rightarrow> Date \<Rightarrow> Date \<Rightarrow> bool" where
  "isSameDay tz d1 d2 = (toDateString tz d1 = toDateString tz d2)"

definition isInThisWeek :: "int \<Rightarrow> int \<Rightarrow> Date \<Rightarrow> bool" where
  "isInThisWeek tz clock date =
     (let now = clock;
          start = setDate tz (getDate tz now - getDay tz now) now;
          end' = setDate tz (getDate tz now + (6 - getDay tz now)) now
      in geDate date (TimeValue start) \<and> leDate date (TimeValue end')
         \<and> \<not> isSameDay tz date (TimeValue now))"

text \<open>
  The three columns of the board. \<open>newDate\<close> is the constructor \<^verbatim>\<open>new Date(text)\<close>, whose
  reading of a text is the browser's.
  \<^verbatim>\<open>
  const today = new Date();
  const todayTasks = tasks.filter((task) => isSameDay(new Date(task.dueDate), today));
  const thisWeekTasks = tasks.filter((task) => isInThisWeek(new Date(task.dueDate)));
  const otherTasks = tasks.filter((task) =>
    !isSameDay(new Date(task.dueDate), today) && !isInThisWeek(new Date(task.dueDate)));
  \<close>
  \<open>today\<close> is read from the clock once, and every call of \<open>isInThisWeek\<close> reads the clock
  again (\<^verbatim>\<open>const now = new Date()\<close> in its body). So a rendering takes a sequence of
  readings: \<open>clock 0\<close> is \<open>today\<close>, and \<open>clock 1\<close>, \<open>clock 2\<close>, ... are the readings of the
  calls of \<open>isInThisWeek\<close> in the order in which they are made. The two filters that call
  it take the number of the next reading and return, with their list, the number after
  their last one. In \<open>otherTasks\<close> the operator \<^verbatim>\<open>&&\<close> does not evaluate its right side,
  and takes no reading, for a task that is due \<open>today\<close>.
\<close>

definition todayTasks :: "int \<Rightarrow> (string \<Rightarrow> Date) \<Rightarrow> Date \<Rightarrow> Task list \<Rightarrow> Task list" where
  "todayTasks tz newDate today ts =
     filter (\<lambda>task. isSameDay tz (newDate (dueDate task)) today) ts"

fun thisWeekTasks ::
  "int \<Rightarrow> (string \<Rightarrow> Date) \<Rightarrow> (nat \<Rightarrow> int) \<Rightarrow> nat \<Rightarrow> Task list \<Rightarrow> Task list \<times> nat"
where
  "thisWeekTasks tz newDate clock k [] = ([], k)"
| "thisWeekTasks tz newDate clock k (task # ts) =
     (let keep = isInThisWeek tz (clock k) (newDate (dueDate task));
          (rest, k') = thisWeekTasks tz newDate clock (Suc k) ts
      in (if keep then task # rest else rest, k'))"

fun otherTasks ::
  "int \<Rightarrow> (string \<Rightarrow> Date) \<Rightarrow> Date \<Rightarrow> (nat \<Rightarrow> int) \<Rightarrow> nat \<Rightarrow> Task list \<Rightarrow> Task list \<times> nat"
where
  "otherTasks tz newDate today clock k [] = ([], k)"
| "otherTasks tz newDate today clock k (task # ts) =
     (if isSameDay tz (newDate (dueDate task)) today
      then otherTasks tz newDate today clock k ts
      else
        (let keep = \<not> isInThisWeek tz (clock k) (newDate (dueDate task));
             (rest, k') = otherTasks tz newDate today clock (Suc k) ts
         in (if keep then task # rest else rest, k')))"

definition columns ::
  "int \<Rightarrow> (string \<Rightarrow> Date) \<Rightarrow> (nat \<Rightarrow> int) \<Rightarrow> Task list \<Rightarrow> Task list \<times> Task list \<times> Task list"
where
  "columns tz newDate clock ts =
     (let today = TimeValue (clock 0);
          todayColumn = todayTasks tz newDate today ts;
          (thisWeekColumn, k) = thisWeekTasks tz newDate clock 1 ts;
          (otherColumn, k') = otherTasks tz newDate today clock k ts
      in (todayColumn, thisWeekColumn, otherColumn))"

text \<open>
  The this-week test in the words of the specification: the date lies in the Sunday to
  Saturday week that holds \<open>clock\<close>, both end days included, and is not the day of \<open>clock\<close>.
\<close>

definition spec_isInThisWeek :: "int \<Rightarrow> int \<Rightarrow> Date \<Rightarrow> bool" where
  "spec_isInThisWeek tz clock date =
     (case date of
        InvalidDate \<Rightarrow> False
      | TimeValue d \<Rightarrow>
          (let today = Day (LocalTime tz clock);
               sunday = today - WeekDay (LocalTime tz clock);
               saturday = sunday + 6;
               day = Day (LocalTime tz d)
           in sunday \<le> day \<and> day \<le> saturday \<and> day \<noteq> today))"

text \<open>
  A reading of due-date texts for the examples: the date-only form \<^verbatim>\<open>YYYY-MM-DD\<close> that the
  date input of the form produces, which \<^verbatim>\<open>new Date\<close> reads as midnight UTC of that day.
  Every other text is an Invalid Date here; what a browser makes of other texts is its own
  choice, and the general results below hold for every reading.
\<close>

definition digitVal :: "char \<Rightarrow> int option" where
  "digitVal c =
     (let code = (of_char c :: nat)
      in if 48 \<le> code \<and> code \<le> 57 then Some (int code - 48) else None)"

fun digitsVal :: "string \<Rightarrow> int option" where
  "digitsVal [] = Some 0"
| "digitsVal (c # cs) =
     (case (digitVal c, digitsVal cs) of
        (Some v, Some w) \<Rightarrow> Some (v * 10 ^ length cs + w)
      | _ \<Rightarrow> None)"

definition parseDateOnly :: "string \<Rightarrow> Date" where
  "parseDateOnly text =
     (if length text = 10 \<and> text ! 4 = CHR ''-'' \<and> text ! 7 = CHR ''-''
      then
        (case (digitsVal (take 4 text), digitsVal (take 2 (drop 5 text)),
               digitsVal (drop 8 text)) of
           (Some y, Some m, Some d) \<Rightarrow>
             if 1 \<le> m \<and> m \<le> 12 \<and> 1 \<le> d \<and> d \<le> 31
             then TimeValue (MakeDate (days_from_civil y m d) 0)
             else InvalidDate
         | _ \<Rightarrow> InvalidDate)
      else InvalidDate)"

text \<open>
  The due date in the words of the specification: a calendar date with no time component,
  the day that the text names; and the local calendar day of a reading of the clock.
\<close>

definition dueDay :: "string \<Rightarrow> (int \<times> int \<times> int) option" where
  "dueDay text =
     (if length text = 10 \<and> text ! 4 = CHR ''-'' \<and> text ! 7 = CHR ''-''
      then
        (case (digitsVal (take 4 text), digitsVal (take 2 (drop 5 text)),
               digitsVal (drop 8 text)) of
           (Some y, Some m, Some d) \<Rightarrow> Some (y, m, d)
         | _ \<Rightarrow> None)
      else None)"

definition localDay :: "int \<Rightarrow> int \<Rightarrow> int \<times> int \<times> int" where
  "localDay tz clock = civil_from_days (Day (LocalTime tz clock))"

section \<open>Example collections\<close>

definition twoTasks :: "Task list" where
  "twoTasks =
     [\<lparr>task_id = 1, title = ''a'', dueDate = ''2024-06-10'', isDone = False\<rparr>,
      \<lparr>task_id = 2, title = ''b'', dueDate = ''2024-06-14'', isDone = True\<rparr>]"

definition dupTasks :: "Task list" where
  "dupTasks =
     [\<lparr>task_id = 1, title = ''a'', dueDate = ''2024-06-10'', isDone = False\<rparr>,
      \<lparr>task_id = 2, title = ''b'', dueDate = ''2024-06-14'', isDone = True\<rparr>,
      \<lparr>task_id = 1, title = ''c'', dueDate = ''2024-06-11'', isDone = False\<rparr>,
      \<lparr>task_id = 3, title = ''d'', dueDate = ''2024-06-12'', isDone = False\<rparr>]"

text \<open>
  The scenario of the specification: two tasks created on Monday 2024-06-10, one due that
  day and one due on the Friday, and a third due in July. \<open>mondayNoon\<close> is
  2024-06-10T12:00:00Z, \<open>wednesdayNoon\<close> is 2024-06-12T12:00:00Z, \<open>wednesdayEight\<close> is
  08:00 of 2024-06-12 in Japan (\<open>jst\<close>, nine hours ahead of UTC).
\<close>

definition scenarioTasks :: "Task list" where
  "scenarioTasks =
     [\<lparr>task_id = 1718020860000, title = ''Plan trip'', dueDate = ''2024-06-14'', isDone = False\<rparr>,
      \<lparr>task_id = 1718020800000, title = ''Write report'', dueDate = ''2024-06-10'', isDone = False\<rparr>,
      \<lparr>task_id = 1718020000000, title = ''Renew pass'', dueDate = ''2024-07-01'', isDone = False\<rparr>]"

definition mondayNoon :: int where
  "mondayNoon = 1718020800000"

definition wednesdayNoon :: int where
  "wednesdayNoon = 1718193600000"

definition jst :: int where
  "jst = 32400000"

definition wednesdayEight :: int where
  "wednesdayEight = 1718146800000"

text \<open>
  Two creations that read the same value from the clock: the form is filled in again
  after the first, and \<^verbatim>\<open>Date.now()\<close> returns 1718020800000 both times.
\<close>

definition sameReadingCreates :: App where
  "sameReadingCreates =
     addTask 1718020800000
       ((addTask 1718020800000
           ((initialApp [] ''2024-06-10'')\<lparr>titleInput := ''Write report''\<rparr>))
        \<lparr>titleInput := ''Plan trip'', dueDateInput := ''2024-06-14''\<rparr>)"

text \<open>The JSON text of \<open>twoTasks\<close>.\<close>

definition twoTasksText :: string where
  \<open>twoTasksText =
     ''[{"id":1,"title":"a","dueDate":"2024-06-10","isDone":false},'' @
     ''{"id":2,"title":"b","dueDate":"2024-06-14","isDone":true}]''\<close>

text \<open>
  Renderings for the columns. \<open>oneReading c\<close> is a rendering all of whose readings of the
  clock are \<open>c\<close>. \<open>mondayNoonWest\<close> is 12:00 of Monday 2024-06-10 five hours behind UTC
  (\<open>west\<close>). \<open>overMidnight\<close> reads 23:59:59.999 of that Monday (UTC) for \<open>today\<close> and
  00:00:00.000 of the Tuesday from then on. \<open>overNine\<close> reads 08:59:59.999 of that Monday
  in Japan up to the calls for the column this week and 09:00:00.000 from the calls for the
  column other on, when the collection has one task.
\<close>

definition oneReading :: "int \<Rightarrow> nat \<Rightarrow> int" where
  "oneReading c k = c"

definition west :: int where
  "west = - 18000000"

definition mondayNoonWest :: int where
  "mondayNoonWest = 1718038800000"

definition overMidnight :: "nat \<Rightarrow> int" where
  "overMidnight k = (if k = 0 then 1718063999999 else 1718064000000)"

definition overNine :: "nat \<Rightarrow> int" where
  "overNine k = (if k < 2 then 1717977599999 else 1717977600000)"

definition dueMonday :: Task where
  "dueMonday = \<lparr>task_id = 1718020800000, title = ''Write report'', dueDate = ''2024-06-10'',
                 isDone = False\<rparr>"

definition dueSaturday :: Task where
  "dueSaturday = \<lparr>task_id = 1718020860000, title = ''Plan trip'', dueDate = ''2024-06-15'',
                   isDone = False\<rparr>"

section \<open>Persistence: the localStorage slot and JSON\<close>

text \<open>
  What \<^verbatim>\<open>JSON.parse\<close> returns is a JavaScript value of any shape; the annotation
  \<^verbatim>\<open>useState<Task[]>\<close> is erased at run time and nothing in the source checks the shape.
  A text is the list of its UTF-8 bytes. A number is a whole number (ids are readings of
  the clock, in the range where a double is exact); a number written with a fraction or an
  exponent is kept as its text. An object is the list of its members in the order of
  insertion.
\<close>

datatype jsvalue =
    JNull
  | JBool bool
  | JNumber int
  | JNonInteger string
  | JString string
  | JArray "jsvalue list"
  | JObject "(string \<times> jsvalue) list"

definition taskToJS :: "Task \<Rightarrow> jsvalue" where
  "taskToJS task =
     JObject [(''id'', JNumber (task_id task)), (''title'', JString (title task)),
              (''dueDate'', JString (dueDate task)), (''isDone'', JBool (isDone task))]"

definition tasksToJS :: "Task list \<Rightarrow> jsvalue" where
  "tasksToJS ts = JArray (map taskToJS ts)"

text \<open>The shape the collection has: an array of task records.\<close>

fun isTaskRecord :: "jsvalue \<Rightarrow> bool" where
  "isTaskRecord (JObject [(k1, JNumber i), (k2, JString t), (k3, JString d), (k4, JBool b)]) =
     (k1 = ''id'' \<and> k2 = ''title'' \<and> k3 = ''dueDate'' \<and> k4 = ''isDone'')"
| "isTaskRecord _ = False"

fun isTaskArray :: "jsvalue \<Rightarrow> bool" where
  "isTaskArray (JArray vs) = list_all isTaskRecord vs"
| "isTaskArray _ = False"

subsection \<open>JSON.stringify\<close>

text \<open>
  The compact text that \<^verbatim>\<open>JSON.stringify\<close> gives with one argument: no white space, a
  whole number in decimal, a string between double quotes with the double quote, the
  backslash and the control characters below 0x20 escaped (the short escapes where there is
  one, \<^verbatim>\<open>\u00XX\<close> otherwise), the elements of an array and the members of an object
  separated by commas.
\<close>

definition dquote :: char where
  "dquote = CHR 0x22"

definition backslash :: char where
  "backslash = CHR 0x5C"

definition digitOf :: "int \<Rightarrow> char" where
  "digitOf d = char_of (48 + d)"

function showDigits :: "int \<Rightarrow> string" where
  "showDigits n = (if n < 10 then [digitOf n] else showDigits (n div 10) @ [digitOf (n mod 10)])"
  by pat_completeness auto
termination
  by (relation "measure nat") auto

definition showInt :: "int \<Rightarrow> string" where
  "showInt i = (if i < 0 then CHR ''-'' # showDigits (- i) else showDigits i)"

definition hexDigit :: "nat \<Rightarrow> char" where
  "hexDigit d = (if d < 10 then char_of (48 + d) else char_of (87 + d))"

definition escapeChar :: "char \<Rightarrow> string" where
  "escapeChar c =
     (if c = dquote then [backslash, dquote]
      else if c = backslash then [backslash, backslash]
      else if c = CHR 0x08 then [backslash, CHR ''b'']
      else if c = CHR 0x0C then [backslash, CHR ''f'']
      else if c = CHR 0x0A then [backslash, CHR ''n'']
      else if c = CHR 0x0D then [backslash, CHR ''r'']
      else if c = CHR 0x09 then [backslash, CHR ''t'']
      else if (of_char c :: nat) < 32
        then [backslash, CHR ''u'', CHR ''0'', CHR ''0'',
              hexDigit (of_char c div 16), hexDigit (of_char c mod 16)]
      else [c])"

definition QuoteJSONString :: "string \<Rightarrow> string" where
  "QuoteJSONString s = dquote # concat (map escapeChar s) @ [dquote]"

fun commaJoin :: "string list \<Rightarrow> string" where
  "commaJoin [] = []"
| "commaJoin [x] = x"
| "commaJoin (x # y # ys) = x @ CHR '','' # commaJoin (y # ys)"

fun JSON_stringify :: "jsvalue \<Rightarrow> string" where
  "JSON_stringify JNull = ''null''"
| "JSON_stringify (JBool b) = (if b then ''true'' else ''false'')"
| "JSON_stringify (JNumber i) = showInt i"
| "JSON_stringify (JNonInteger t) = t"
| "JSON_stringify (JString s) = QuoteJSONString s"
| "JSON_stringify (JArray vs) = CHR ''['' # commaJoin (map JSON_stringify vs) @ '']''"
| "JSON_stringify (JObject ms) =
     CHR ''{'' # commaJoin (map (\<lambda>(k, v). QuoteJSONString k @ CHR '':'' # JSON_stringify v) ms)
       @ ''}''"

subsection \<open>JSON.parse\<close>

text \<open>
  A recursive-descent reading of the JSON grammar. White space is the space, the tab, the
  line feed and the carriage return. A number has an optional minus sign, digits without a
  leading zero, and an optional fraction and exponent. In a string every escape of the
  grammar is read; \<^verbatim>\<open>\uXXXX\<close> gives the UTF-8 bytes of the code unit.
\<close>

definition isDigit :: "char \<Rightarrow> bool" where
  "isDigit c = (48 \<le> (of_char c :: nat) \<and> (of_char c :: nat) \<le> 57)"

definition isWS :: "char \<Rightarrow> bool" where
  "isWS c = (c = CHR 0x20 \<or> c = CHR 0x09 \<or> c = CHR 0x0A \<or> c = CHR 0x0D)"

definition skipWS :: "string \<Rightarrow> string" where
  "skipWS s = dropWhile isWS s"

definition readDigits :: "string \<Rightarrow> int" where
  "readDigits ds = foldl (\<lambda>a c. 10 * a + (of_char c - 48)) 0 ds"

definition parseFraction :: "string \<Rightarrow> (string \<times> string) option" where
  "parseFraction r =
     (case r of
        [] \<Rightarrow> Some ([], [])
      | c # cs \<Rightarrow>
          if c = CHR ''.''
          then (if takeWhile isDigit cs = [] then None
                else Some (c # takeWhile isDigit cs, dropWhile isDigit cs))
          else Some ([], r))"

definition parseExponent :: "string \<Rightarrow> (string \<times> string) option" where
  "parseExponent r =
     (case r of
        [] \<Rightarrow> Some ([], [])
      | c # cs \<Rightarrow>
          if c = CHR ''e'' \<or> c = CHR ''E''
          then (let sign = (case cs of [] \<Rightarrow> [] | p # _ \<Rightarrow> if p = CHR ''+'' \<or> p = CHR ''-'' then [p] else []);
                    ds = drop (length sign) cs
                in if takeWhile isDigit ds = [] then None
                   else Some (c # sign @ takeWhile isDigit ds, dropWhile isDigit ds))
          else Some ([], r))"

definition parseNumber :: "string \<Rightarrow> (jsvalue \<times> string) option" where
  "parseNumber s =
     (let sign = (case s of [] \<Rightarrow> [] | c # _ \<Rightarrow> if c = CHR ''-'' then [c] else []);
          s1 = drop (length sign) s;
          ds = takeWhile isDigit s1
      in if ds = [] \<or> (1 < length ds \<and> hd ds = CHR ''0'') then None
         else
           (case parseFraction (dropWhile isDigit s1) of
              None \<Rightarrow> None
            | Some (frac, r1) \<Rightarrow>
                (case parseExponent r1 of
                   None \<Rightarrow> None
                 | Some (ex, r2) \<Rightarrow>
                     if frac = [] \<and> ex = []
                     then Some (JNumber (if sign = [] then readDigits ds else - readDigits ds), r2)
                     else Some (JNonInteger (sign @ ds @ frac @ ex), r2))))"

definition hexVal :: "char \<Rightarrow> nat option" where
  "hexVal c =
     (let n = (of_char c :: nat)
      in if 48 \<le> n \<and> n \<le> 57 then Some (n - 48)
         else if 97 \<le> n \<and> n \<le> 102 then Some (n - 87)
         else if 65 \<le> n \<and> n \<le> 70 then Some (n - 55)
         else None)"

fun hex4 :: "string \<Rightarrow> nat option" where
  "hex4 [a, b, c, d] =
     (case (hexVal a, hexVal b, hexVal c, hexVal d) of
        (Some x, Some y, Some z, Some w) \<Rightarrow> Some (((x * 16 + y) * 16 + z) * 16 + w)
      | _ \<Rightarrow> None)"
| "hex4 _ = None"

definition utf8 :: "nat \<Rightarrow> string" where
  "utf8 u =
     (if u < 128 then [char_of u]
      else if u < 2048 then [char_of (192 + u div 64), char_of (128 + u mod 64)]
      else [char_of (224 + u div 4096), char_of (128 + u div 64 mod 64), char_of (128 + u mod 64)])"

definition unescape :: "char \<Rightarrow> char option" where
  "unescape e =
     (if e = dquote then Some dquote
      else if e = backslash then Some backslash
      else if e = CHR ''/'' then Some CHR ''/''
      else if e = CHR ''b'' then Some (CHR 0x08)
      else if e = CHR ''f'' then Some (CHR 0x0C)
      else if e = CHR ''n'' then Some (CHR 0x0A)
      else if e = CHR ''r'' then Some (CHR 0x0D)
      else if e = CHR ''t'' then Some (CHR 0x09)
      else None)"

fun parseChars :: "string \<Rightarrow> (string \<times> string) option" where
  "parseChars [] = None"
| "parseChars (c # cs) =
     (if c = dquote then Some ([], cs)
      else if c = backslash then
        (case cs of
           [] \<Rightarrow> None
         | e # cs' \<Rightarrow>
             if e = CHR ''u'' then
               (case hex4 (take 4 cs') of
                  None \<Rightarrow> None
                | Some u \<Rightarrow>
                    (case parseChars (drop 4 cs') of
                       None \<Rightarrow> None
                     | Some (str, r) \<Rightarrow> Some (utf8 u @ str, r)))
             else
               (case unescape e of
                  None \<Rightarrow> None
                | Some d \<Rightarrow>
                    (case parseChars cs' of
                       None \<Rightarrow> None
                     | Some (str, r) \<Rightarrow> Some (d # str, r))))
      else if (of_char c :: nat) < 32 then None
      else
        (case parseChars cs of
           None \<Rightarrow> None
         | Some (str, r) \<Rightarrow> Some (c # str, r)))"

text \<open>
  A key that occurs again in an object keeps its place and takes the later value. (The
  rule of JavaScript that puts keys that are array indices first is not modelled; the keys
  of a task are none.)
\<close>

fun setMember :: "(string \<times> jsvalue) list \<Rightarrow> string \<Rightarrow> jsvalue \<Rightarrow> (string \<times> jsvalue) list" where
  "setMember [] k v = [(k, v)]"
| "setMember ((k', v') # ms) k v =
     (if k' = k then (k, v) # ms else (k', v') # setMember ms k v)"

definition makeObject :: "(string \<times> jsvalue) list \<Rightarrow> jsvalue" where
  "makeObject ms = JObject (foldl (\<lambda>obj (k, v). setMember obj k v) [] ms)"

text \<open>
  Values nest, so the reading of a value is recursive in a way that is not structural in
  the text. It runs on fuel: one unit for each level of nesting in \<open>parseValue\<close>, one for
  each element or member in \<open>parseElementsWith\<close> and \<open>parseMembersWith\<close>. Running out of
  fuel is \<open>None\<close>, as a malformed text is. \<open>JSON_parse\<close> gives as much fuel as the text has
  characters, and a text has no more levels, elements or members than characters.
\<close>

primrec parseElementsWith ::
  "(string \<Rightarrow> (jsvalue \<times> string) option) \<Rightarrow> nat \<Rightarrow> string \<Rightarrow> (jsvalue list \<times> string) option"
where
  "parseElementsWith pv 0 s = None"
| "parseElementsWith pv (Suc m) s =
     (case pv s of
        None \<Rightarrow> None
      | Some (v, r) \<Rightarrow>
          (case skipWS r of
             [] \<Rightarrow> None
           | c # r' \<Rightarrow>
               if c = CHR '','' then
                 (case parseElementsWith pv m r' of
                    None \<Rightarrow> None
                  | Some (vs, r'') \<Rightarrow> Some (v # vs, r''))
               else if c = CHR '']'' then Some ([v], r')
               else None))"

primrec parseMembersWith ::
  "(string \<Rightarrow> (jsvalue \<times> string) option) \<Rightarrow> nat \<Rightarrow> string
     \<Rightarrow> ((string \<times> jsvalue) list \<times> string) option"
where
  "parseMembersWith pv 0 s = None"
| "parseMembersWith pv (Suc m) s =
     (case skipWS s of
        [] \<Rightarrow> None
      | c # cs \<Rightarrow>
          if c \<noteq> dquote then None
          else
            (case parseChars cs of
               None \<Rightarrow> None
             | Some (k, r) \<Rightarrow>
                 (case skipWS r of
                    [] \<Rightarrow> None
                  | c1 # r1 \<Rightarrow>
                      if c1 \<noteq> CHR '':'' then None
                      else
                        (case pv r1 of
                           None \<Rightarrow> None
                         | Some (v, r2) \<Rightarrow>
                             (case skipWS r2 of
                                [] \<Rightarrow> None
                              | c3 # r3 \<Rightarrow>
                                  if c3 = CHR '','' then
                                    (case parseMembersWith pv m r3 of
                                       None \<Rightarrow> None
                                     | Some (ms, r4) \<Rightarrow> Some ((k, v) # ms, r4))
                                  else if c3 = CHR ''}'' then Some ([(k, v)], r3)
                                  else None)))))"

primrec parseValue :: "nat \<Rightarrow> string \<Rightarrow> (jsvalue \<times> string) option" where
  "parseValue 0 s = None"
| "parseValue (Suc n) s =
     (case skipWS s of
        [] \<Rightarrow> None
      | c # cs \<Rightarrow>
          if c = CHR ''{'' then
            (case skipWS cs of
               [] \<Rightarrow> None
             | c' # r \<Rightarrow>
                 if c' = CHR ''}'' then Some (JObject [], r)
                 else
                   (case parseMembersWith (parseValue n) (length cs) (c' # r) of
                      None \<Rightarrow> None
                    | Some (ms, r') \<Rightarrow> Some (makeObject ms, r')))
          else if c = CHR ''['' then
            (case skipWS cs of
               [] \<Rightarrow> None
             | c' # r \<Rightarrow>
                 if c' = CHR '']'' then Some (JArray [], r)
                 else
                   (case parseElementsWith (parseValue n) (length cs) (c' # r) of
                      None \<Rightarrow> None
                    | Some (vs, r') \<Rightarrow> Some (JArray vs, r')))
          else if c = dquote then
            (case parseChars cs of
               None \<Rightarrow> None
             | Some (str, r) \<Rightarrow> Some (JString str, r))
          else if c = CHR ''-'' \<or> isDigit c then parseNumber (c # cs)
          else if take 4 (c # cs) = ''true'' then Some (JBool True, drop 4 (c # cs))
          else if take 5 (c # cs) = ''false'' then Some (JBool False, drop 5 (c # cs))
          else if take 4 (c # cs) = ''null'' then Some (JNull, drop 4 (c # cs))
          else None)"

text \<open>
  Exceptions are values. \<^verbatim>\<open>localStorage\<close> may refuse access (a browser that blocks site
  data throws a SecurityError) and may refuse a write for lack of room; \<open>quota\<close> is the
  longest text the slot takes. \<^verbatim>\<open>getItem\<close> returns \<^verbatim>\<open>null\<close> (\<open>None\<close>) for a key that is not
  there.
\<close>

datatype exn = SecurityError | SyntaxError | QuotaExceededError | TypeError

record localStorage =
  accessible :: bool
  quota :: nat
  items :: "string \<rightharpoonup> string"

definition getItem :: "localStorage \<Rightarrow> string \<Rightarrow> exn + string option" where
  "getItem ls key = (if accessible ls then Inr (items ls key) else Inl SecurityError)"

definition setItem :: "localStorage \<Rightarrow> string \<Rightarrow> string \<Rightarrow> exn + localStorage" where
  "setItem ls key text =
     (if \<not> accessible ls then Inl SecurityError
      else if quota ls < length text then Inl QuotaExceededError
      else Inr (ls\<lparr>items := (items ls)(key \<mapsto> text)\<rparr>))"

definition try_catch :: "exn + 'a \<Rightarrow> (exn \<Rightarrow> exn + 'a) \<Rightarrow> exn + 'a" where
  "try_catch body handler = (case body of Inl e \<Rightarrow> handler e | Inr v \<Rightarrow> Inr v)"

text \<open>
  \<^verbatim>\<open>JSON.parse\<close> throws a SyntaxError on a text that is not JSON, also when something other
  than white space follows the value.
\<close>

definition JSON_parse :: "string \<Rightarrow> exn + jsvalue" where
  "JSON_parse text =
     (case parseValue (Suc (length text)) text of
        None \<Rightarrow> Inl SyntaxError
      | Some (v, r) \<Rightarrow> if skipWS r = [] then Inr v else Inl SyntaxError)"

text \<open>
  The initialiser of the collection, the load of the specification:
  \<^verbatim>\<open>
  useState<Task[]>(() => {
    try {
      const stored = localStorage.getItem('tasks');
      return stored ? JSON.parse(stored) : [];
    } catch { return []; }
  });
  \<close>
  \<^verbatim>\<open>null\<close> and the empty text fail the truthiness test.
\<close>

definition load :: "localStorage \<Rightarrow> exn + jsvalue" where
  "load ls =
     try_catch
       (case getItem ls ''tasks'' of
          Inl e \<Rightarrow> Inl e
        | Inr stored \<Rightarrow>
            (case stored of
               None \<Rightarrow> Inr (JArray [])
             | Some text \<Rightarrow> if text = [] then Inr (JArray []) else JSON_parse text))
       (\<lambda>e. Inr (JArray []))"

text \<open>
  The effect that follows every change of the collection, the save of the specification:
  \<^verbatim>\<open>
  useEffect(() => { localStorage.setItem('tasks', JSON.stringify(tasks)); }, [tasks]);
  \<close>
\<close>

definition save :: "Task list \<Rightarrow> localStorage \<Rightarrow> exn + localStorage" where
  "save ts ls = setItem ls ''tasks'' (JSON_stringify (tasksToJS ts))"

text \<open>
  Every rendering starts by filtering the collection (\<^verbatim>\<open>tasks.filter(...)\<close>, line 116).
  Only an array has the method: on any other value the call throws a TypeError.
\<close>

definition tasks_filter :: "(jsvalue \<Rightarrow> bool) \<Rightarrow> jsvalue \<Rightarrow> exn + jsvalue list" where
  "tasks_filter p v = (case v of JArray vs \<Rightarrow> Inr (filter p vs) | _ \<Rightarrow> Inl TypeError)"

text \<open>
  The text of the members of a task record, between the braces; and example storages: an
  empty one, and one that holds an older collection under the key.
\<close>

definition taskMembersText :: "Task \<Rightarrow> string" where
  "taskMembersText task =
     QuoteJSONString ''id'' @ CHR '':'' # showInt (task_id task) @ CHR '','' #
     QuoteJSONString ''title'' @ CHR '':'' # QuoteJSONString (title task) @ CHR '','' #
     QuoteJSONString ''dueDate'' @ CHR '':'' # QuoteJSONString (dueDate task) @ CHR '','' #
     QuoteJSONString ''isDone'' @ CHR '':'' # JSON_stringify (JBool (isDone task))"

definition emptyStorage :: localStorage where
  "emptyStorage = \<lparr>accessible = True, quota = 5000000, items = Map.empty\<rparr>"

definition usedStorage :: localStorage where
  "usedStorage = emptyStorage\<lparr>items := [''tasks'' \<mapsto> JSON_stringify (tasksToJS dupTasks)]\<rparr>"

section \<open>The invariant of the timeout table\<close>

text \<open>
  Every pending timeout is the one the reference names, and its handle is positive. The
  invariant holds at start-up and every handler keeps it.
\<close>

definition timerInv :: "App \<Rightarrow> bool" where
  "timerInv s = (\<forall>p \<in> set (timers s). 0 < fst p \<and> messageTimeoutRef s = Some (fst p))"

section \<open>Properties of the transient message\<close>

lemma showMessage_tasks [simp]: "tasks (showMessage msg now s) = tasks s"
  by (simp add: showMessage_def setTimeout_def clearTimeout_def Let_def split: option.splits)

lemma showMessage_message [simp]: "message (showMessage msg now s) = msg"
  by (simp add: showMessage_def setTimeout_def clearTimeout_def Let_def split: option.splits)

lemma showMessage_titleInput [simp]: "titleInput (showMessage msg now s) = titleInput s"
  by (simp add: showMessage_def setTimeout_def clearTimeout_def Let_def split: option.splits)

lemma showMessage_dueDateInput [simp]: "dueDateInput (showMessage msg now s) = dueDateInput s"
  by (simp add: showMessage_def setTimeout_def clearTimeout_def Let_def split: option.splits)

lemma showMessage_ref [simp]:
  "messageTimeoutRef (showMessage msg now s) = Some (Suc (lastHandle s))"
  by (simp add: showMessage_def setTimeout_def clearTimeout_def Let_def split: option.splits)

lemma showMessage_lastHandle [simp]:
  "lastHandle (showMessage msg now s) = Suc (lastHandle s)"
  by (simp add: showMessage_def setTimeout_def clearTimeout_def Let_def split: option.splits)



lemma showMessage_timers:
  assumes "timerInv s"
  shows "timers (showMessage msg now s) = [(Suc (lastHandle s), now + 3000)]"
proof (cases "messageTimeoutRef s")
  case None
  with assms have "timers s = []"
    by (cases "timers s") (auto simp: timerInv_def)
  with None show ?thesis
    by (simp add: showMessage_def setTimeout_def Let_def)
next
  case (Some h)
  show ?thesis
  proof (cases "h = 0")
    case True
    with Some assms have "timers s = []"
      by (cases "timers s") (auto simp: timerInv_def)
    with Some True show ?thesis
      by (simp add: showMessage_def setTimeout_def Let_def)
  next
    case False
    from Some assms have "filter (\<lambda>p. fst p \<noteq> h) (timers s) = []"
      by (auto simp: timerInv_def filter_empty_conv)
    with Some False show ?thesis
      by (simp add: showMessage_def setTimeout_def clearTimeout_def Let_def)
  qed
qed

lemma timerInv_initialApp: "timerInv (initialApp ts d)"
  by (simp add: timerInv_def initialApp_def)

lemma timerInv_showMessage: "timerInv s \<Longrightarrow> timerInv (showMessage msg now s)"
  by (simp add: timerInv_def showMessage_timers [unfolded timerInv_def])

lemma timerInv_advance: "timerInv s \<Longrightarrow> timerInv (advance t s)"
  by (auto simp: timerInv_def advance_def)

lemma advance_before:
  assumes "timers s = [(h, d)]" "t < d"
  shows "advance t s = s"
  using assms by (simp add: advance_def)

lemma advance_after:
  assumes "timers s = [(h, d)]" "d \<le> t"
  shows "message (advance t s) = [] \<and> timers (advance t s) = []"
  using assms by (simp add: advance_def)

lemma advance_lastHandle [simp]: "lastHandle (advance t s) = lastHandle s"
  by (simp add: advance_def)

lemma initialApp_lastHandle [simp]: "lastHandle (initialApp loaded d) = 0"
  by (simp add: initialApp_def)

text \<open>
  Claim C9. \<open>showMessage\<close> sets the message to its argument, cancels the pending timeout of
  the call before and leaves exactly one timeout pending, due 3000 ms after the call, whose
  handle it stores in the reference: the message is still shown at every time before that
  and is empty from then on. The table of timeouts is in order at start-up (every pending
  timeout is the one the reference names) and stays so after \<open>showMessage\<close> and as time
  passes, so the same holds of every later call. Hence, from start-up, after
  \<open>showMessage ''A''\<close> at 0 and \<open>showMessage ''B''\<close> at 1000 the message is \<open>''B''\<close> at 3500
  and empty at 4100; and after a third call \<open>showMessage ''C''\<close> at 2000 the only timeout
  pending is the third, due at 5000, the message is \<open>''C''\<close> until then and empty at 5000.
\<close>

theorem showMessage_debounce:
  "(timerInv s \<longrightarrow>
      message (showMessage msg now s) = msg
    \<and> timers (showMessage msg now s) = [(Suc (lastHandle s), now + 3000)]
    \<and> (\<forall>t. t < now + 3000 \<longrightarrow> message (advance t (showMessage msg now s)) = msg)
    \<and> (\<forall>t. now + 3000 \<le> t \<longrightarrow> message (advance t (showMessage msg now s)) = [])
    \<and> messageTimeoutRef (showMessage msg now s) = Some (Suc (lastHandle s))
    \<and> lastHandle (showMessage msg now s) = Suc (lastHandle s)
    \<and> timerInv (showMessage msg now s)
    \<and> (\<forall>t. timerInv (advance t (showMessage msg now s))))
   \<and> (let s1 = showMessage ''A'' 0 (initialApp loaded d);
           s2 = showMessage ''B'' 1000 (advance 1000 s1)
       in message (advance 3500 s2) = ''B'' \<and> message (advance 4100 s2) = [])
   \<and> timerInv (initialApp loaded d)
   \<and> (let s1 = showMessage ''A'' 0 (initialApp loaded d);
           s2 = showMessage ''B'' 1000 (advance 1000 s1);
           s3 = showMessage ''C'' 2000 (advance 2000 s2)
       in timers s3 = [(3, 5000)] \<and> messageTimeoutRef s3 = Some 3
          \<and> message (advance 4999 s3) = ''C'' \<and> message (advance 5000 s3) = [])"
proof -
  have gen: "message (showMessage msg now s) = msg
    \<and> timers (showMessage msg now s) = [(Suc (lastHandle s), now + 3000)]
    \<and> (\<forall>t. t < now + 3000 \<longrightarrow> message (advance t (showMessage msg now s)) = msg)
    \<and> (\<forall>t. now + 3000 \<le> t \<longrightarrow> message (advance t (showMessage msg now s)) = [])
    \<and> messageTimeoutRef (showMessage msg now s) = Some (Suc (lastHandle s))
    \<and> lastHandle (showMessage msg now s) = Suc (lastHandle s)
    \<and> timerInv (showMessage msg now s)
    \<and> (\<forall>t. timerInv (advance t (showMessage msg now s)))"
    if inv: "timerInv s" for s msg now
  proof -
    have tm: "timers (showMessage msg now s) = [(Suc (lastHandle s), now + 3000)]"
      using inv by (rule showMessage_timers)
    have inv': "timerInv (showMessage msg now s)"
      using inv by (rule timerInv_showMessage)
    then have "timerInv (advance t (showMessage msg now s))" for t
      by (rule timerInv_advance)
    with inv' show ?thesis
      using tm advance_before [OF tm] advance_after [OF tm] by simp
  qed
  let ?s0 = "initialApp loaded d"
  let ?s1 = "showMessage ''A'' 0 ?s0"
  let ?s2 = "showMessage ''B'' 1000 (advance 1000 ?s1)"
  let ?s3 = "showMessage ''C'' 2000 (advance 2000 ?s2)"
  have inv0: "timerInv ?s0"
    by (rule timerInv_initialApp)
  have inv1: "timerInv (advance 1000 ?s1)"
    by (intro timerInv_advance timerInv_showMessage inv0)
  have inv2: "timerInv (advance 2000 ?s2)"
    by (intro timerInv_advance timerInv_showMessage inv1)
  from gen [OF inv1, of "''B''" 1000]
  have two: "message (advance 3500 ?s2) = ''B''" "message (advance 4100 ?s2) = []"
    by simp_all
  from gen [OF inv2, of "''C''" 2000]
  have three: "timers ?s3 = [(3, 5000)]" "messageTimeoutRef ?s3 = Some 3"
    "message (advance 4999 ?s3) = ''C''" "message (advance 5000 ?s3) = []"
    by simp_all
  from gen inv0 two three show ?thesis
    by (simp only: Let_def) blast
qed

theorem showMessage_debounce_witness:
  "timerInv (advance 1000 (showMessage ''A'' 0 (initialApp [] [])))
   \<and> (3500::int) < 1000 + 3000
   \<and> message (advance 3500 (showMessage ''B'' 1000
         (advance 1000 (showMessage ''A'' 0 (initialApp [] []))))) = ''B''
   \<and> (1000::int) + 3000 \<le> 4100
   \<and> message (advance 4100 (showMessage ''B'' 1000
         (advance 1000 (showMessage ''A'' 0 (initialApp [] []))))) = []
   \<and> messageTimeoutRef (showMessage ''B'' 1000
         (advance 1000 (showMessage ''A'' 0 (initialApp [] [])))) = Some 2
   \<and> timers (showMessage ''B'' 1000
         (advance 1000 (showMessage ''A'' 0 (initialApp [] [])))) = [(2, 4000)]"
proof -
  have inv: "timerInv (advance 1000 (showMessage ''A'' 0 (initialApp [] [])))"
    by (simp add: timerInv_def advance_def showMessage_def setTimeout_def initialApp_def)
  show ?thesis
    using inv showMessage_debounce [of "advance 1000 (showMessage ''A'' 0 (initialApp [] []))" "''B''" 1000]
    by simp
qed

section \<open>Properties of the task store\<close>

lemma msgInputRequired_nonempty: "msgInputRequired \<noteq> []"
  by (simp add: msgInputRequired_def)

lemma msgAdded_nonempty: "msgAdded \<noteq> []"
  by (simp add: msgAdded_def)

lemma msgCancelled_neq_msgDeleted: "msgCancelled \<noteq> msgDeleted"
  by (simp add: msgCancelled_def msgDeleted_def)

text \<open>
  Claim C6. \<open>addTask\<close> with an empty title or an empty due date leaves the collection as it
  is and shows the (non-empty) warning; with both non-empty it puts one new task, not done
  and carrying the two inputs, in front of the collection, whose tasks stay as they were.
\<close>

theorem addTask_create:
  "(titleInput s = [] \<or> dueDateInput s = [] \<longrightarrow>
      tasks (addTask now s) = tasks s
    \<and> message (addTask now s) = msgInputRequired \<and> msgInputRequired \<noteq> [])
   \<and> (titleInput s \<noteq> [] \<and> dueDateInput s \<noteq> [] \<longrightarrow>
      tasks (addTask now s)
        = \<lparr>task_id = now, title = titleInput s, dueDate = dueDateInput s, isDone = False\<rparr>
          # tasks s
    \<and> message (addTask now s) = msgAdded)"
  by (simp add: addTask_def Let_def msgInputRequired_nonempty)

theorem addTask_create_witness:
  "titleInput (initialApp [] ''2024-06-10'') = []
   \<and> tasks (addTask 5 (initialApp [] ''2024-06-10'')) = []
   \<and> message (addTask 5 (initialApp [] ''2024-06-10'')) = msgInputRequired
   \<and> titleInput ((initialApp [] ''2024-06-10'')\<lparr>titleInput := ''Write report''\<rparr>) \<noteq> []
   \<and> dueDateInput ((initialApp [] ''2024-06-10'')\<lparr>titleInput := ''Write report''\<rparr>) \<noteq> []
   \<and> tasks (addTask 5 ((initialApp [] ''2024-06-10'')\<lparr>titleInput := ''Write report''\<rparr>))
        = [\<lparr>task_id = 5, title = ''Write report'', dueDate = ''2024-06-10'', isDone = False\<rparr>]
   \<and> message (addTask 5 ((initialApp [] ''2024-06-10'')\<lparr>titleInput := ''Write report''\<rparr>))
        = msgAdded"
  using addTask_create [of "initialApp [] ''2024-06-10''" 5]
    addTask_create [of "(initialApp [] ''2024-06-10'')\<lparr>titleInput := ''Write report''\<rparr>" 5]
  by (auto simp add: initialApp_def)

text \<open>
  Claim C7. \<open>toggleTaskDone i\<close> keeps the length and the order of the collection: at every
  position the id, the title and the due date stay, a task with id \<open>i\<close> has its \<open>isDone\<close>
  negated and a task with another id is unchanged. When no task has the id, the collection is
  unchanged.
\<close>

theorem toggleTaskDone_frame:
  "length (tasks (toggleTaskDone i s)) = length (tasks s)
   \<and> (\<forall>k < length (tasks s).
        task_id (tasks (toggleTaskDone i s) ! k) = task_id (tasks s ! k)
      \<and> title (tasks (toggleTaskDone i s) ! k) = title (tasks s ! k)
      \<and> dueDate (tasks (toggleTaskDone i s) ! k) = dueDate (tasks s ! k)
      \<and> (task_id (tasks s ! k) = i \<longrightarrow>
           isDone (tasks (toggleTaskDone i s) ! k) = (\<not> isDone (tasks s ! k)))
      \<and> (task_id (tasks s ! k) \<noteq> i \<longrightarrow>
           tasks (toggleTaskDone i s) ! k = tasks s ! k))
   \<and> ((\<forall>task \<in> set (tasks s). task_id task \<noteq> i) \<longrightarrow> tasks (toggleTaskDone i s) = tasks s)"
  by (auto simp add: toggleTaskDone_def map_idI)

theorem toggleTaskDone_frame_witness:
  "(0::nat) < length (tasks (initialApp twoTasks []))
   \<and> task_id (tasks (initialApp twoTasks []) ! 0) = 1
   \<and> isDone (tasks (toggleTaskDone 1 (initialApp twoTasks [])) ! 0)
        = (\<not> isDone (tasks (initialApp twoTasks []) ! 0))
   \<and> (1::nat) < length (tasks (initialApp twoTasks []))
   \<and> task_id (tasks (initialApp twoTasks []) ! 1) \<noteq> 1
   \<and> tasks (toggleTaskDone 1 (initialApp twoTasks [])) ! 1 = tasks (initialApp twoTasks []) ! 1
   \<and> 7 \<notin> task_id ` set (tasks (initialApp twoTasks []))
   \<and> tasks (toggleTaskDone 7 (initialApp twoTasks [])) = tasks (initialApp twoTasks [])"
proof -
  let ?s = "initialApp twoTasks []"
  have ts: "tasks ?s = twoTasks"
    by (simp add: initialApp_def)
  have a: "(0::nat) < length (tasks ?s)" "task_id (tasks ?s ! 0) = 1"
    "(1::nat) < length (tasks ?s)" "task_id (tasks ?s ! 1) \<noteq> 1"
    by (simp_all add: initialApp_def twoTasks_def)
  have none: "\<forall>task \<in> set (tasks ?s). task_id task \<noteq> 7"
    by (simp add: initialApp_def twoTasks_def)
  from toggleTaskDone_frame [of 7 ?s] none have noop: "tasks (toggleTaskDone 7 ?s) = tasks ?s"
    by blast
  from toggleTaskDone_frame [of 1 ?s] a
  have "isDone (tasks (toggleTaskDone 1 ?s) ! 0) = (\<not> isDone (tasks ?s ! 0))"
    "tasks (toggleTaskDone 1 ?s) ! 1 = tasks ?s ! 1"
    by blast+
  moreover from none have "7 \<notin> task_id ` set (tasks ?s)" by auto
  ultimately show ?thesis using a noop by blast
qed

lemma toggleTaskDone_other_fields:
  "titleInput (toggleTaskDone i s) = titleInput s \<and> dueDateInput (toggleTaskDone i s) = dueDateInput s
   \<and> message (toggleTaskDone i s) = message s \<and> timers (toggleTaskDone i s) = timers s"
  by (simp add: toggleTaskDone_def)

text \<open>
  Claim C8. \<open>deleteTask\<close> with the confirmation refused leaves the collection as it is and
  shows "cancelled". With the confirmation given, the tasks left are those of the collection
  whose id differs from the given one, the collection is unchanged when no task has the id,
  and "deleted" is shown in either case.
\<close>

theorem deleteTask_confirmation:
  "(\<not> confirmed \<longrightarrow>
      tasks (deleteTask i confirmed now s) = tasks s
    \<and> message (deleteTask i confirmed now s) = msgCancelled)
   \<and> (confirmed \<longrightarrow>
      (\<forall>task. task \<in> set (tasks (deleteTask i confirmed now s))
                \<longleftrightarrow> task \<in> set (tasks s) \<and> task_id task \<noteq> i)
    \<and> ((\<forall>task \<in> set (tasks s). task_id task \<noteq> i) \<longrightarrow>
          tasks (deleteTask i confirmed now s) = tasks s)
    \<and> message (deleteTask i confirmed now s) = msgDeleted)"
  by (auto simp add: deleteTask_def filter_id_conv)

theorem deleteTask_confirmation_witness:
  "\<not> False
   \<and> tasks (deleteTask 1 False 0 (initialApp twoTasks [])) = twoTasks
   \<and> message (deleteTask 1 False 0 (initialApp twoTasks [])) = msgCancelled
   \<and> set (tasks (deleteTask 1 True 0 (initialApp twoTasks [])))
        = {\<lparr>task_id = 2, title = ''b'', dueDate = ''2024-06-14'', isDone = True\<rparr>}
   \<and> message (deleteTask 1 True 0 (initialApp twoTasks [])) = msgDeleted
   \<and> 7 \<notin> task_id ` set (tasks (initialApp twoTasks []))
   \<and> tasks (deleteTask 7 True 0 (initialApp twoTasks [])) = twoTasks
   \<and> message (deleteTask 7 True 0 (initialApp twoTasks [])) = msgDeleted"
proof -
  let ?s = "initialApp twoTasks []"
  have ts: "tasks ?s = twoTasks"
    by (simp add: initialApp_def)
  have none: "\<forall>task \<in> set (tasks ?s). task_id task \<noteq> 7"
    by (simp add: initialApp_def twoTasks_def)
  have rest: "{task. task \<in> set (tasks ?s) \<and> task_id task \<noteq> 1}
      = {\<lparr>task_id = 2, title = ''b'', dueDate = ''2024-06-14'', isDone = True\<rparr>}"
    by (auto simp add: initialApp_def twoTasks_def)
  from deleteTask_confirmation [of False 1 0 ?s]
  have c: "tasks (deleteTask 1 False 0 ?s) = tasks ?s \<and> message (deleteTask 1 False 0 ?s) = msgCancelled"
    by blast
  from deleteTask_confirmation [of True 1 0 ?s]
  have d: "(\<forall>task. task \<in> set (tasks (deleteTask 1 True 0 ?s))
                \<longleftrightarrow> task \<in> set (tasks ?s) \<and> task_id task \<noteq> 1)"
    and dm: "message (deleteTask 1 True 0 ?s) = msgDeleted"
    by blast+
  from d have "set (tasks (deleteTask 1 True 0 ?s)) = {task. task \<in> set (tasks ?s) \<and> task_id task \<noteq> 1}"
    by blast
  with rest have d': "set (tasks (deleteTask 1 True 0 ?s))
      = {\<lparr>task_id = 2, title = ''b'', dueDate = ''2024-06-14'', isDone = True\<rparr>}"
    by (rule trans [rotated])
  from deleteTask_confirmation [of True 7 0 ?s] none
  have e: "tasks (deleteTask 7 True 0 ?s) = tasks ?s \<and> message (deleteTask 7 True 0 ?s) = msgDeleted"
    by blast
  from none have "7 \<notin> task_id ` set (tasks ?s)" by auto
  with c d' dm e show ?thesis
    unfolding ts by blast
qed

lemma count_list_filter_keep:
  "P x \<Longrightarrow> count_list (filter P xs) x = count_list xs x"
  by (induction xs) auto

text \<open>
  Claim C10. A confirmed \<open>deleteTask i\<close> leaves no task with id \<open>i\<close>, however many there
  were; every task with another id is kept as often as it occurred, and the tasks kept are
  in their original relative order.
\<close>

theorem deleteTask_removes_all:
  "(\<forall>task \<in> set (tasks (deleteTask i True now s)). task_id task \<noteq> i)
   \<and> (\<forall>task. task_id task \<noteq> i \<longrightarrow>
         count_list (tasks (deleteTask i True now s)) task = count_list (tasks s) task)
   \<and> subseq (tasks (deleteTask i True now s)) (tasks s)
   \<and> filter (\<lambda>task. task_id task \<noteq> i) (tasks (deleteTask i True now s))
       = filter (\<lambda>task. task_id task \<noteq> i) (tasks s)"
  by (auto simp add: deleteTask_def count_list_filter_keep)

theorem deleteTask_removes_all_witness:
  "task_id \<lparr>task_id = 2, title = ''b'', dueDate = ''2024-06-14'', isDone = True\<rparr> \<noteq> 1
   \<and> tasks (deleteTask 1 True 0 (initialApp dupTasks []))
      = [\<lparr>task_id = 2, title = ''b'', dueDate = ''2024-06-14'', isDone = True\<rparr>,
         \<lparr>task_id = 3, title = ''d'', dueDate = ''2024-06-12'', isDone = False\<rparr>]"
proof -
  let ?s = "initialApp dupTasks []"
  let ?r = "tasks (deleteTask 1 True 0 ?s)"
  have f: "filter (\<lambda>task. task_id task \<noteq> 1) (tasks ?s)
      = [\<lparr>task_id = 2, title = ''b'', dueDate = ''2024-06-14'', isDone = True\<rparr>,
         \<lparr>task_id = 3, title = ''d'', dueDate = ''2024-06-12'', isDone = False\<rparr>]"
    by (simp add: initialApp_def dupTasks_def)
  from deleteTask_removes_all [of 1 0 ?s]
  have no: "\<forall>task \<in> set ?r. task_id task \<noteq> 1"
    and keep: "filter (\<lambda>task. task_id task \<noteq> 1) ?r = filter (\<lambda>task. task_id task \<noteq> 1) (tasks ?s)"
    by blast+
  from no have "filter (\<lambda>task. task_id task \<noteq> 1) ?r = ?r"
    by (rule filter_True)
  with keep f have "?r = [\<lparr>task_id = 2, title = ''b'', dueDate = ''2024-06-14'', isDone = True\<rparr>,
         \<lparr>task_id = 3, title = ''d'', dueDate = ''2024-06-12'', isDone = False\<rparr>]"
    by (simp only:)
  then show ?thesis by simp
qed

section \<open>The handlers keep the invariant of the timeout table\<close>

lemma timerInv_addTask: "timerInv s \<Longrightarrow> timerInv (addTask now s)"
proof -
  assume inv: "timerInv s"
  then have "timerInv (s\<lparr>tasks := ts, titleInput := a, dueDateInput := b\<rparr>)" for ts a b
    by (simp add: timerInv_def)
  with inv show ?thesis
    by (simp add: addTask_def Let_def timerInv_showMessage)
qed

lemma timerInv_deleteTask: "timerInv s \<Longrightarrow> timerInv (deleteTask i confirmed now s)"
proof -
  assume inv: "timerInv s"
  then have "timerInv (s\<lparr>tasks := ts\<rparr>)" for ts
    by (simp add: timerInv_def)
  with inv show ?thesis
    by (simp add: deleteTask_def timerInv_showMessage)
qed

lemma timerInv_toggleTaskDone: "timerInv s \<Longrightarrow> timerInv (toggleTaskDone i s)"
  by (simp add: timerInv_def toggleTaskDone_def)

section \<open>Identity of tasks\<close>

lemma toggleTaskDone_twice: "toggleTaskDone i (toggleTaskDone i s) = s"
proof -
  have "map ((\<lambda>task. if task_id task = i then task\<lparr>isDone := \<not> isDone task\<rparr> else task)
          \<circ> (\<lambda>task. if task_id task = i then task\<lparr>isDone := \<not> isDone task\<rparr> else task)) ts = ts"
    for ts :: "Task list"
    by (induction ts) simp_all
  then show ?thesis
    by (simp add: toggleTaskDone_def)
qed

lemma toggleTaskDone_keeps_ids:
  "map task_id (tasks (toggleTaskDone i s)) = map task_id (tasks s)"
  by (simp add: toggleTaskDone_def comp_def if_distrib cong: if_cong)

lemma toggleTaskDone_distinct_ids:
  "distinct (map task_id (tasks s)) \<Longrightarrow> distinct (map task_id (tasks (toggleTaskDone i s)))"
  by (simp add: toggleTaskDone_keeps_ids)

lemma deleteTask_distinct_ids:
  "distinct (map task_id (tasks s)) \<Longrightarrow>
   distinct (map task_id (tasks (deleteTask i confirmed now s)))"
  by (simp add: deleteTask_def distinct_map_filter)

lemma addTask_distinct_ids_fresh:
  "distinct (map task_id (tasks s)) \<Longrightarrow> now \<notin> task_id ` set (tasks s) \<Longrightarrow>
   distinct (map task_id (tasks (addTask now s)))"
  by (simp add: addTask_def Let_def)

lemma addTask_collision:
  "titleInput s \<noteq> [] \<Longrightarrow> dueDateInput s \<noteq> [] \<Longrightarrow> now \<in> task_id ` set (tasks s) \<Longrightarrow>
   \<not> distinct (map task_id (tasks (addTask now s)))"
  by (simp add: addTask_def Let_def)

text \<open>
  Claim C1. The ids of created tasks are pairwise distinct. \<open>toggleTaskDone\<close> and
  \<open>deleteTask\<close> keep the ids distinct, and so does \<open>addTask\<close> when the clock reading is new;
  but the id is the clock reading itself, and two creations at one reading give two tasks
  with one id.
\<close>

theorem addTask_same_reading_same_id:
  "map task_id (tasks sameReadingCreates) = [1718020800000, 1718020800000]
   \<and> map title (tasks sameReadingCreates) = [''Plan trip'', ''Write report'']
   \<and> \<not> distinct (map task_id (tasks sameReadingCreates))"
  by (simp add: sameReadingCreates_def addTask_def initialApp_def Let_def)

section \<open>Properties of the date classification\<close>

lemma msPerDay_pos: "0 < msPerDay"
  by (simp add: msPerDay_def)

lemma setDate_getDate_shift: "setDate tz (getDate tz t + k) t = t + k * msPerDay"
proof -
  have "(Day (LocalTime tz t) + k) * msPerDay + TimeWithinDay (LocalTime tz t)
      = LocalTime tz t + k * msPerDay"
    by (simp add: Day_def TimeWithinDay_def algebra_simps)
  then show ?thesis
    by (simp add: setDate_def getDate_def Let_def MakeDate_def UTC_def LocalTime_def)
qed

lemma Day_shift: "Day (t + k * msPerDay) = Day t + k"
  using msPerDay_pos by (simp add: Day_def)

lemma Day_mono: "a \<le> b \<Longrightarrow> Day a \<le> Day b"
  using msPerDay_pos by (simp add: Day_def zdiv_mono1)

lemma WeekDay_range: "0 \<le> WeekDay t \<and> WeekDay t \<le> 6"
  by (simp add: WeekDay_def)

lemma isInThisWeek_InvalidDate: "isInThisWeek tz clock InvalidDate = False"
  by (simp add: isInThisWeek_def Let_def)

lemma isInThisWeek_TimeValue:
  "isInThisWeek tz clock (TimeValue d) \<longleftrightarrow>
     clock - getDay tz clock * msPerDay \<le> d
   \<and> d \<le> clock + (6 - getDay tz clock) * msPerDay
   \<and> Day (LocalTime tz d) \<noteq> Day (LocalTime tz clock)"
proof -
  have s: "setDate tz (getDate tz clock - getDay tz clock) clock
      = clock - getDay tz clock * msPerDay"
    using setDate_getDate_shift [of tz clock "- getDay tz clock"] by simp
  have e: "setDate tz (getDate tz clock + (6 - getDay tz clock)) clock
      = clock + (6 - getDay tz clock) * msPerDay"
    by (rule setDate_getDate_shift)
  show ?thesis
    by (simp add: isInThisWeek_def Let_def s e isSameDay_def toDateString_def)
qed

lemma isInThisWeek_sound:
  assumes "isInThisWeek tz clock date"
  shows "spec_isInThisWeek tz clock date"
proof (cases date)
  case InvalidDate
  with assms show ?thesis by (simp add: isInThisWeek_InvalidDate)
next
  case (TimeValue d)
  let ?w = "WeekDay (LocalTime tz clock)"
  from assms TimeValue have lo: "clock - ?w * msPerDay \<le> d"
    and hi: "d \<le> clock + (6 - ?w) * msPerDay"
    and ne: "Day (LocalTime tz d) \<noteq> Day (LocalTime tz clock)"
    by (simp_all add: isInThisWeek_TimeValue getDay_def)
  from lo have "LocalTime tz clock + (- ?w) * msPerDay \<le> LocalTime tz d"
    by (simp add: LocalTime_def)
  then have "Day (LocalTime tz clock + (- ?w) * msPerDay) \<le> Day (LocalTime tz d)"
    by (rule Day_mono)
  then have a: "Day (LocalTime tz clock) - ?w \<le> Day (LocalTime tz d)"
    unfolding Day_shift by simp
  from hi have "LocalTime tz d \<le> LocalTime tz clock + (6 - ?w) * msPerDay"
    by (simp add: LocalTime_def)
  then have "Day (LocalTime tz d) \<le> Day (LocalTime tz clock + (6 - ?w) * msPerDay)"
    by (rule Day_mono)
  then have b: "Day (LocalTime tz d) \<le> Day (LocalTime tz clock) - ?w + 6"
    unfolding Day_shift by simp
  from a b ne TimeValue show ?thesis
    by (simp add: spec_isInThisWeek_def Let_def)
qed

lemma oneReading_apply [simp]: "oneReading c k = c"
  by (simp add: oneReading_def)

lemma thisWeekTasks_oneReading:
  "fst (thisWeekTasks tz newDate (oneReading c) k ts)
    = filter (\<lambda>task. isInThisWeek tz c (newDate (dueDate task))) ts"
  by (induction ts arbitrary: k) (simp_all add: Let_def case_prod_beta)

lemma otherTasks_oneReading:
  "fst (otherTasks tz newDate today (oneReading c) k ts)
    = filter (\<lambda>task. \<not> isSameDay tz (newDate (dueDate task)) today
                      \<and> \<not> isInThisWeek tz c (newDate (dueDate task))) ts"
  by (induction ts arbitrary: k) (simp_all add: Let_def case_prod_beta)

lemma columns_oneReading:
  "columns tz newDate (oneReading c) ts =
     (filter (\<lambda>task. isSameDay tz (newDate (dueDate task)) (TimeValue c)) ts,
      filter (\<lambda>task. isInThisWeek tz c (newDate (dueDate task))) ts,
      filter (\<lambda>task. \<not> isSameDay tz (newDate (dueDate task)) (TimeValue c)
                      \<and> \<not> isInThisWeek tz c (newDate (dueDate task))) ts)"
  by (simp add: columns_def Let_def case_prod_beta todayTasks_def thisWeekTasks_oneReading
      otherTasks_oneReading)

text \<open>
  What holds of the columns: in a rendering all of whose readings of the clock are the
  same instant, every task of the collection is in exactly one column, and a task that the
  source's \<open>isSameDay\<close> puts on the day of the reading is not in the column this week.
\<close>

lemma columns_oneReading_partition:
  assumes "columns tz newDate (oneReading c) ts = (todayColumn, thisWeekColumn, otherColumn)"
    and "task \<in> set ts"
  shows "(task \<in> set todayColumn \<and> task \<notin> set thisWeekColumn \<and> task \<notin> set otherColumn)
     \<or> (task \<notin> set todayColumn \<and> task \<in> set thisWeekColumn \<and> task \<notin> set otherColumn)
     \<or> (task \<notin> set todayColumn \<and> task \<notin> set thisWeekColumn \<and> task \<in> set otherColumn)"
proof -
  have excl: "\<not> (isSameDay tz d (TimeValue c) \<and> isInThisWeek tz c d)" for d
    by (simp add: isInThisWeek_def Let_def)
  from assms(1) have
    "todayColumn = filter (\<lambda>task. isSameDay tz (newDate (dueDate task)) (TimeValue c)) ts"
    "thisWeekColumn = filter (\<lambda>task. isInThisWeek tz c (newDate (dueDate task))) ts"
    "otherColumn = filter (\<lambda>task. \<not> isSameDay tz (newDate (dueDate task)) (TimeValue c)
                      \<and> \<not> isInThisWeek tz c (newDate (dueDate task))) ts"
    by (simp_all add: columns_oneReading)
  with assms(2) excl [of "newDate (dueDate task)"] show ?thesis
    by auto
qed

lemma columns_scenario:
  "columns 0 parseDateOnly (oneReading mondayNoon) scenarioTasks =
     ([\<lparr>task_id = 1718020800000, title = ''Write report'', dueDate = ''2024-06-10'', isDone = False\<rparr>],
      [\<lparr>task_id = 1718020860000, title = ''Plan trip'', dueDate = ''2024-06-14'', isDone = False\<rparr>],
      [\<lparr>task_id = 1718020000000, title = ''Renew pass'', dueDate = ''2024-07-01'', isDone = False\<rparr>])"
  by code_simp

text \<open>
  Claim C2. Every task should be in exactly one of the columns today, this week and
  other, and a task due on the day of now should never be in the column this week. The
  source misses this in two ways. It reads the due-date text as midnight UTC and compares
  in local time, so west of UTC a task due on the local day of now is not under today but
  under this week. And \<open>isInThisWeek\<close> reads the clock again on every call, so within one
  rendering a task due today is under today and under this week when midnight passes
  between the readings, and a task is under no column when \<open>end\<close> passes its date between
  the calls for the two columns.
\<close>

theorem columns_miss_partition:
  "dueDay (dueDate dueMonday) = Some (localDay west mondayNoonWest)
   \<and> columns west parseDateOnly (oneReading mondayNoonWest) [dueMonday] = ([], [dueMonday], [])
   \<and> dueDay (dueDate dueMonday) = Some (localDay 0 (overMidnight 0))
   \<and> columns 0 parseDateOnly overMidnight [dueMonday] = ([dueMonday], [dueMonday], [])
   \<and> columns jst parseDateOnly overNine [dueSaturday] = ([], [], [])"
  by code_simp

text \<open>
  Claim C3. The this-week test should hold exactly for the dates of the Sunday to Saturday
  week of the clock reading, both end days included, other than the day of the reading.
  The test of the source accepts only dates of that week (\<open>isInThisWeek_sound\<close>), but it
  compares instants, and \<open>start\<close> and \<open>end\<close> carry the time of day of the reading: on
  Wednesday noon UTC the due date of the Sunday, read as midnight, is before \<open>start\<close> and
  is refused; at 08:00 in Japan the due date of the Saturday, 09:00 there, is after \<open>end\<close>
  and is refused.
\<close>

theorem isInThisWeek_misses_end_days:
  "spec_isInThisWeek 0 wednesdayNoon (parseDateOnly ''2024-06-09'')
   \<and> \<not> isInThisWeek 0 wednesdayNoon (parseDateOnly ''2024-06-09'')
   \<and> WeekDay (LocalTime 0 1717891200000) = 0
   \<and> parseDateOnly ''2024-06-09'' = TimeValue 1717891200000
   \<and> spec_isInThisWeek jst wednesdayEight (parseDateOnly ''2024-06-15'')
   \<and> \<not> isInThisWeek jst wednesdayEight (parseDateOnly ''2024-06-15'')
   \<and> WeekDay (LocalTime jst 1718409600000) = 6
   \<and> parseDateOnly ''2024-06-15'' = TimeValue 1718409600000"
  by code_simp

section \<open>JSON: the text of a collection parses back to the collection\<close>

declare showDigits.simps [simp del]

lemma showDigits_small: "n < 10 \<Longrightarrow> showDigits n = [digitOf n]"
  by (subst showDigits.simps) simp

lemma showDigits_big:
  "\<not> n < 10 \<Longrightarrow> showDigits n = showDigits (n div 10) @ [digitOf (n mod 10)]"
  by (subst showDigits.simps) simp

lemma of_char_digitOf: "0 \<le> d \<Longrightarrow> d < 10 \<Longrightarrow> (of_char (digitOf d) :: int) = 48 + d"
  by (simp add: digitOf_def)

lemma of_char_nat_int: "(of_char c :: nat) = nat (of_char c :: int)"
proof -
  have "(of_char c :: int) = int (of_char c)"
    by (simp add: of_nat_of_char)
  then show ?thesis by simp
qed

lemma isDigit_digitOf: "0 \<le> d \<Longrightarrow> d < 10 \<Longrightarrow> isDigit (digitOf d)"
  by (auto simp add: isDigit_def of_char_nat_int of_char_digitOf)

lemma digitOf_zero: "0 \<le> d \<Longrightarrow> d < 10 \<Longrightarrow> digitOf d = CHR ''0'' \<Longrightarrow> d = 0"
proof -
  assume a: "0 \<le> d" "d < 10" and e: "digitOf d = CHR ''0''"
  from e have "(of_char (digitOf d) :: int) = of_char CHR ''0''" by simp
  with a show "d = 0" by (simp add: of_char_digitOf)
qed

lemma showDigits_nonempty: "showDigits n \<noteq> []"
  by (subst showDigits.simps) simp

lemma showDigits_digits: "0 \<le> n \<Longrightarrow> c \<in> set (showDigits n) \<Longrightarrow> isDigit c"
proof (induction n rule: showDigits.induct)
  case (1 n)
  show ?case
  proof (cases "n < 10")
    case True
    with "1.prems" show ?thesis
      by (simp add: showDigits_small isDigit_digitOf)
  next
    case False
    with "1.prems" have "c \<in> set (showDigits (n div 10)) \<or> c = digitOf (n mod 10)"
      by (auto simp add: showDigits_big)
    with False "1.IH" "1.prems"(1) show ?thesis
      by (auto simp add: isDigit_digitOf)
  qed
qed

lemma readDigits_snoc: "readDigits (ds @ [c]) = 10 * readDigits ds + (of_char c - 48)"
  by (simp add: readDigits_def)

lemma readDigits_showDigits: "0 \<le> n \<Longrightarrow> readDigits (showDigits n) = n"
proof (induction n rule: showDigits.induct)
  case (1 n)
  show ?case
  proof (cases "n < 10")
    case True
    with "1.prems" show ?thesis
      by (simp add: showDigits_small readDigits_def of_char_digitOf)
  next
    case False
    with "1.IH" "1.prems" have "readDigits (showDigits (n div 10)) = n div 10"
      by simp
    with False show ?thesis
      by (simp add: showDigits_big readDigits_snoc of_char_digitOf)
  qed
qed

lemma showDigits_hd: "0 \<le> n \<Longrightarrow> hd (showDigits n) = CHR ''0'' \<Longrightarrow> n = 0"
proof (induction n rule: showDigits.induct)
  case (1 n)
  show ?case
  proof (cases "n < 10")
    case True
    with "1.prems" show ?thesis
      by (simp add: showDigits_small digitOf_zero)
  next
    case False
    with "1.prems" have "hd (showDigits (n div 10)) = CHR ''0''"
      by (simp add: showDigits_big showDigits_nonempty)
    with False "1.IH" "1.prems"(1) have "n div 10 = 0"
      by simp
    with False "1.prems"(1) show ?thesis
      by simp
  qed
qed

lemma showDigits_no_leading_zero:
  "0 \<le> n \<Longrightarrow> 1 < length (showDigits n) \<Longrightarrow> hd (showDigits n) \<noteq> CHR ''0''"
proof
  assume a: "0 \<le> n" "1 < length (showDigits n)" "hd (showDigits n) = CHR ''0''"
  then have "n = 0" by (simp add: showDigits_hd)
  with a(2) show False
    by (simp add: showDigits_small)
qed

lemma takeWhile_stop: "r = [] \<or> \<not> P (hd r) \<Longrightarrow> takeWhile P r = []"
  by (cases r) auto

lemma dropWhile_stop: "r = [] \<or> \<not> P (hd r) \<Longrightarrow> dropWhile P r = r"
  by (cases r) auto

lemma takeWhile_showDigits:
  "0 \<le> n \<Longrightarrow> r = [] \<or> \<not> isDigit (hd r) \<Longrightarrow> takeWhile isDigit (showDigits n @ r) = showDigits n"
  by (simp add: takeWhile_append2 showDigits_digits takeWhile_stop)

lemma dropWhile_showDigits:
  "0 \<le> n \<Longrightarrow> r = [] \<or> \<not> isDigit (hd r) \<Longrightarrow> dropWhile isDigit (showDigits n @ r) = r"
  by (simp add: dropWhile_append2 showDigits_digits dropWhile_stop)

lemma parseFraction_none: "r = [] \<or> hd r \<noteq> CHR ''.'' \<Longrightarrow> parseFraction r = Some ([], r)"
  by (cases r) (auto simp add: parseFraction_def)

lemma parseExponent_none:
  "r = [] \<or> (hd r \<noteq> CHR ''e'' \<and> hd r \<noteq> CHR ''E'') \<Longrightarrow> parseExponent r = Some ([], r)"
  by (cases r) (auto simp add: parseExponent_def)

lemma showDigits_hd_digit: "0 \<le> n \<Longrightarrow> isDigit (hd (showDigits n))"
  using showDigits_digits [of n "hd (showDigits n)"] showDigits_nonempty [of n]
  by simp

lemma minus_not_digit: "\<not> isDigit CHR ''-''"
  by (simp add: isDigit_def)

lemma parseNumber_digits:
  assumes n: "0 \<le> n"
    and r: "r = [] \<or> (\<not> isDigit (hd r) \<and> hd r \<noteq> CHR ''.'' \<and> hd r \<noteq> CHR ''e'' \<and> hd r \<noteq> CHR ''E'')"
  shows "parseNumber (showDigits n @ r) = Some (JNumber n, r)"
proof -
  obtain c cs where cs: "showDigits n = c # cs"
    using showDigits_nonempty [of n] by (cases "showDigits n") auto
  with showDigits_hd_digit [OF n] have c: "c \<noteq> CHR ''-''"
    using minus_not_digit by auto
  from r have r': "r = [] \<or> \<not> isDigit (hd r)" by blast
  have tw: "takeWhile isDigit (showDigits n @ r) = showDigits n"
    by (rule takeWhile_showDigits [OF n r'])
  have dw: "dropWhile isDigit (showDigits n @ r) = r"
    by (rule dropWhile_showDigits [OF n r'])
  have lead: "\<not> (1 < length (showDigits n) \<and> hd (showDigits n) = CHR ''0'')"
    using showDigits_no_leading_zero [OF n] by blast
  from r have "r = [] \<or> hd r \<noteq> CHR ''.''" by blast
  then have fr: "parseFraction r = Some ([], r)"
    by (rule parseFraction_none)
  from r have "r = [] \<or> (hd r \<noteq> CHR ''e'' \<and> hd r \<noteq> CHR ''E'')" by blast
  then have ex: "parseExponent r = Some ([], r)"
    by (rule parseExponent_none)
  have sign: "(case showDigits n @ r of [] \<Rightarrow> [] | c # _ \<Rightarrow> if c = CHR ''-'' then [c] else []) = []"
    using cs c by simp
  show ?thesis
    unfolding parseNumber_def sign Let_def
    using lead showDigits_nonempty [of n]
    by (simp add: tw dw fr ex readDigits_showDigits [OF n])
qed

lemma parseNumber_showInt:
  assumes r: "r = [] \<or> (\<not> isDigit (hd r) \<and> hd r \<noteq> CHR ''.'' \<and> hd r \<noteq> CHR ''e'' \<and> hd r \<noteq> CHR ''E'')"
  shows "parseNumber (showInt i @ r) = Some (JNumber i, r)"
proof (cases "i < 0")
  case False
  then show ?thesis
    using parseNumber_digits [of i r] r by (simp add: showInt_def)
next
  case True
  then have n: "0 \<le> - i" by simp
  from r have r': "r = [] \<or> \<not> isDigit (hd r)" by blast
  have tw: "takeWhile isDigit (showDigits (- i) @ r) = showDigits (- i)"
    by (rule takeWhile_showDigits [OF n r'])
  have dw: "dropWhile isDigit (showDigits (- i) @ r) = r"
    by (rule dropWhile_showDigits [OF n r'])
  have lead: "\<not> (1 < length (showDigits (- i)) \<and> hd (showDigits (- i)) = CHR ''0'')"
    using showDigits_no_leading_zero [OF n] by blast
  from r have "r = [] \<or> hd r \<noteq> CHR ''.''" by blast
  then have fr: "parseFraction r = Some ([], r)"
    by (rule parseFraction_none)
  from r have "r = [] \<or> (hd r \<noteq> CHR ''e'' \<and> hd r \<noteq> CHR ''E'')" by blast
  then have ex: "parseExponent r = Some ([], r)"
    by (rule parseExponent_none)
  show ?thesis
    using True lead showDigits_nonempty [of "- i"]
    by (simp add: showInt_def parseNumber_def Let_def tw dw fr ex readDigits_showDigits [OF n])
qed

lemma showInt_hd: "\<exists>c cs. showInt i = c # cs \<and> (c = CHR ''-'' \<or> isDigit c)"
proof (cases "i < 0")
  case True
  then show ?thesis by (simp add: showInt_def)
next
  case False
  then have n: "0 \<le> i" by simp
  obtain c cs where cs: "showDigits i = c # cs"
    using showDigits_nonempty [of i] by (cases "showDigits i") auto
  with showDigits_hd_digit [OF n] have "isDigit c" by simp
  with cs False show ?thesis by (simp add: showInt_def)
qed

lemma hexVal_hexDigit: "d < 16 \<Longrightarrow> hexVal (hexDigit d) = Some d"
  by (auto simp add: hexVal_def hexDigit_def Let_def)

lemma hex4_escape:
  "(n :: nat) < 32 \<Longrightarrow>
   hex4 [CHR ''0'', CHR ''0'', hexDigit (n div 16), hexDigit (n mod 16)] = Some n"
proof -
  assume n: "n < 32"
  then have "n div 16 < 16" by simp
  then have a: "hexVal (hexDigit (n div 16)) = Some (n div 16)"
    by (rule hexVal_hexDigit)
  have b: "hexVal (hexDigit (n mod 16)) = Some (n mod 16)"
    by (rule hexVal_hexDigit) simp
  have z: "hexVal CHR ''0'' = Some 0"
    by (simp add: hexVal_def)
  show ?thesis
    by (simp add: a b z)
qed

lemma utf8_low: "(of_char c :: nat) < 128 \<Longrightarrow> utf8 (of_char c) = [c]"
  by (simp add: utf8_def)

lemma parseChars_escapeChar:
  "parseChars (escapeChar c @ rest) =
     (case parseChars rest of None \<Rightarrow> None | Some (str, r) \<Rightarrow> Some (c # str, r))"
proof -
  consider (special) "c = dquote \<or> c = backslash \<or> c = CHR 0x08 \<or> c = CHR 0x0C \<or> c = CHR 0x0A
      \<or> c = CHR 0x0D \<or> c = CHR 0x09"
    | (control) "\<not> (c = dquote \<or> c = backslash \<or> c = CHR 0x08 \<or> c = CHR 0x0C \<or> c = CHR 0x0A
      \<or> c = CHR 0x0D \<or> c = CHR 0x09)" "(of_char c :: nat) < 32"
    | (plain) "\<not> (c = dquote \<or> c = backslash \<or> c = CHR 0x08 \<or> c = CHR 0x0C \<or> c = CHR 0x0A
      \<or> c = CHR 0x0D \<or> c = CHR 0x09)" "\<not> (of_char c :: nat) < 32"
    by blast
  then show ?thesis
  proof cases
    case special
    then show ?thesis
      by (auto simp add: escapeChar_def unescape_def dquote_def backslash_def)
  next
    case control
    then have u: "utf8 (of_char c) = [c]"
      by (simp add: utf8_low)
    from control show ?thesis
      by (simp add: escapeChar_def hex4_escape u dquote_def backslash_def del: hex4.simps
          split: option.split)
  next
    case plain
    then show ?thesis
      by (simp add: escapeChar_def)
  qed
qed

lemma parseChars_quoted:
  "parseChars (concat (map escapeChar s) @ dquote # r) = Some (s, r)"
  by (induction s) (simp_all add: parseChars_escapeChar)

lemma QuoteJSONString_append:
  "QuoteJSONString s @ r = dquote # (concat (map escapeChar s) @ dquote # r)"
  by (simp add: QuoteJSONString_def)

lemma skipWS_keep: "\<not> isWS c \<Longrightarrow> skipWS (c # cs) = c # cs"
  by (simp add: skipWS_def)

lemma isWS_simps:
  "\<not> isWS dquote" "\<not> isWS CHR '':''" "\<not> isWS CHR '',''" "\<not> isWS CHR ''}''" "\<not> isWS CHR '']''"
  "\<not> isWS CHR ''{''" "\<not> isWS CHR ''[''" "\<not> isWS CHR ''-''" "\<not> isWS CHR ''t''" "\<not> isWS CHR ''f''"
  by (simp_all add: isWS_def dquote_def)

lemma isDigit_not_WS: "isDigit c \<Longrightarrow> \<not> isWS c"
  by (auto simp add: isDigit_def isWS_def)

lemma isDigit_not_special:
  "isDigit c \<Longrightarrow> c \<noteq> CHR ''{'' \<and> c \<noteq> CHR ''['' \<and> c \<noteq> dquote"
  by (auto simp add: isDigit_def dquote_def)

lemma parseValue_string:
  "parseValue (Suc n) (QuoteJSONString s @ r) = Some (JString s, r)"
proof -
  have sk: "skipWS (dquote # (concat (map escapeChar s) @ dquote # r)) = dquote # (concat (map escapeChar s) @ dquote # r)"
    by (rule skipWS_keep) (rule isWS_simps)
  have d: "dquote \<noteq> CHR ''{''" "dquote \<noteq> CHR ''[''"
    by (simp_all add: dquote_def)
  show ?thesis
    unfolding QuoteJSONString_append parseValue.simps sk
    by (simp add: d parseChars_quoted)
qed

lemma parseValue_number:
  assumes r: "r = [] \<or> (\<not> isDigit (hd r) \<and> hd r \<noteq> CHR ''.'' \<and> hd r \<noteq> CHR ''e'' \<and> hd r \<noteq> CHR ''E'')"
  shows "parseValue (Suc n) (showInt i @ r) = Some (JNumber i, r)"
proof -
  obtain c cs where cs: "showInt i = c # cs" and c: "c = CHR ''-'' \<or> isDigit c"
    using showInt_hd [of i] by blast
  from c have ws: "\<not> isWS c"
    using isDigit_not_WS isWS_simps by blast
  from c have sp: "c \<noteq> CHR ''{''" "c \<noteq> CHR ''[''" "c \<noteq> dquote"
    using isDigit_not_special by (auto simp add: dquote_def)
  have sk: "skipWS (c # (cs @ r)) = c # (cs @ r)"
    using ws by (rule skipWS_keep)
  have "parseValue (Suc n) (c # (cs @ r)) = parseNumber (c # (cs @ r))"
    unfolding parseValue.simps sk using sp c by simp
  also have "c # (cs @ r) = showInt i @ r"
    by (simp add: cs)
  finally show ?thesis
    using cs parseNumber_showInt [OF r, of i] by simp
qed

lemma parseValue_bool:
  "parseValue (Suc n) (JSON_stringify (JBool b) @ r) = Some (JBool b, r)"
  by (cases b) (simp_all add: skipWS_keep isWS_simps dquote_def isDigit_def)

lemma parseMembersWith_more:
  assumes v: "pv (vt @ CHR '','' # rest) = Some (v, CHR '','' # rest)"
    and ms: "parseMembersWith pv m rest = Some (ms, r)"
  shows "parseMembersWith pv (Suc m) (QuoteJSONString k @ CHR '':'' # vt @ CHR '','' # rest)
    = Some ((k, v) # ms, r)"
proof -
  let ?body = "concat (map escapeChar k) @ dquote # CHR '':'' # vt @ CHR '','' # rest"
  have sk: "skipWS (dquote # ?body) = dquote # ?body"
    by (rule skipWS_keep) (rule isWS_simps)
  have k: "parseChars ?body = Some (k, CHR '':'' # vt @ CHR '','' # rest)"
    by (rule parseChars_quoted)
  have s1: "skipWS (CHR '':'' # vt @ CHR '','' # rest) = CHR '':'' # vt @ CHR '','' # rest"
    by (rule skipWS_keep) (rule isWS_simps)
  have s2: "skipWS (CHR '','' # rest) = CHR '','' # rest"
    by (rule skipWS_keep) (rule isWS_simps)
  show ?thesis
    unfolding QuoteJSONString_append parseMembersWith.simps sk
    by (simp add: k s1 v s2 ms)
qed

lemma parseMembersWith_last:
  assumes v: "pv (vt @ CHR ''}'' # r) = Some (v, CHR ''}'' # r)"
  shows "parseMembersWith pv (Suc m) (QuoteJSONString k @ CHR '':'' # vt @ CHR ''}'' # r)
    = Some ([(k, v)], r)"
proof -
  let ?body = "concat (map escapeChar k) @ dquote # CHR '':'' # vt @ CHR ''}'' # r"
  have sk: "skipWS (dquote # ?body) = dquote # ?body"
    by (rule skipWS_keep) (rule isWS_simps)
  have k: "parseChars ?body = Some (k, CHR '':'' # vt @ CHR ''}'' # r)"
    by (rule parseChars_quoted)
  have s1: "skipWS (CHR '':'' # vt @ CHR ''}'' # r) = CHR '':'' # vt @ CHR ''}'' # r"
    by (rule skipWS_keep) (rule isWS_simps)
  have s2: "skipWS (CHR ''}'' # r) = CHR ''}'' # r"
    by (rule skipWS_keep) (rule isWS_simps)
  show ?thesis
    unfolding QuoteJSONString_append parseMembersWith.simps sk
    by (simp add: k s1 v s2)
qed

lemma JSON_stringify_task:
  "JSON_stringify (taskToJS task) = CHR ''{'' # taskMembersText task @ ''}''"
  by (simp add: taskToJS_def taskMembersText_def)

lemma comma_ends_number:
  "CHR '','' # rest = [] \<or> (\<not> isDigit (hd (CHR '','' # rest)) \<and> hd (CHR '','' # rest) \<noteq> CHR ''.''
     \<and> hd (CHR '','' # rest) \<noteq> CHR ''e'' \<and> hd (CHR '','' # rest) \<noteq> CHR ''E'')"
  by (simp add: isDigit_def)

lemma parseMembersWith_task:
  "parseMembersWith (parseValue (Suc n)) (Suc (Suc (Suc (Suc m)))) (taskMembersText task @ CHR ''}'' # r)
    = Some ([(''id'', JNumber (task_id task)), (''title'', JString (title task)),
             (''dueDate'', JString (dueDate task)), (''isDone'', JBool (isDone task))], r)"
proof -
  let ?t4 = "JSON_stringify (JBool (isDone task))"
  let ?m4 = "QuoteJSONString ''isDone'' @ CHR '':'' # ?t4 @ CHR ''}'' # r"
  let ?m3 = "QuoteJSONString ''dueDate'' @ CHR '':'' # QuoteJSONString (dueDate task) @ CHR '','' # ?m4"
  let ?m2 = "QuoteJSONString ''title'' @ CHR '':'' # QuoteJSONString (title task) @ CHR '','' # ?m3"
  let ?m1 = "QuoteJSONString ''id'' @ CHR '':'' # showInt (task_id task) @ CHR '','' # ?m2"
  have v4: "parseValue (Suc n) (?t4 @ CHR ''}'' # r) = Some (JBool (isDone task), CHR ''}'' # r)"
    by (rule parseValue_bool)
  have p4: "parseMembersWith (parseValue (Suc n)) (Suc m) ?m4 = Some ([(''isDone'', JBool (isDone task))], r)"
    by (rule parseMembersWith_last [where pv = "parseValue (Suc n)" and vt = ?t4, OF v4])
  have v3: "parseValue (Suc n) (QuoteJSONString (dueDate task) @ CHR '','' # ?m4)
      = Some (JString (dueDate task), CHR '','' # ?m4)"
    by (rule parseValue_string)
  have p3: "parseMembersWith (parseValue (Suc n)) (Suc (Suc m)) ?m3
      = Some ([(''dueDate'', JString (dueDate task)), (''isDone'', JBool (isDone task))], r)"
    by (rule parseMembersWith_more
        [where pv = "parseValue (Suc n)" and vt = "QuoteJSONString (dueDate task)", OF v3 p4])
  have v2: "parseValue (Suc n) (QuoteJSONString (title task) @ CHR '','' # ?m3)
      = Some (JString (title task), CHR '','' # ?m3)"
    by (rule parseValue_string)
  have p2: "parseMembersWith (parseValue (Suc n)) (Suc (Suc (Suc m))) ?m2
      = Some ([(''title'', JString (title task)), (''dueDate'', JString (dueDate task)),
               (''isDone'', JBool (isDone task))], r)"
    by (rule parseMembersWith_more
        [where pv = "parseValue (Suc n)" and vt = "QuoteJSONString (title task)", OF v2 p3])
  have v1: "parseValue (Suc n) (showInt (task_id task) @ CHR '','' # ?m2)
      = Some (JNumber (task_id task), CHR '','' # ?m2)"
    by (rule parseValue_number) (rule comma_ends_number)
  have p1: "parseMembersWith (parseValue (Suc n)) (Suc (Suc (Suc (Suc m)))) ?m1
      = Some ([(''id'', JNumber (task_id task)), (''title'', JString (title task)),
               (''dueDate'', JString (dueDate task)), (''isDone'', JBool (isDone task))], r)"
    by (rule parseMembersWith_more
        [where pv = "parseValue (Suc n)" and vt = "showInt (task_id task)", OF v1 p2])
  have "taskMembersText task @ CHR ''}'' # r = ?m1"
    by (simp add: taskMembersText_def)
  with p1 show ?thesis by (simp only:)
qed

lemma taskMembersText_hd: "\<exists>cs. taskMembersText task = dquote # cs \<and> 4 \<le> length cs"
  by (simp add: taskMembersText_def QuoteJSONString_def)

lemma makeObject_task:
  "makeObject [(''id'', a), (''title'', b), (''dueDate'', c), (''isDone'', d)]
    = JObject [(''id'', a), (''title'', b), (''dueDate'', c), (''isDone'', d)]"
  by (simp add: makeObject_def)

lemma parseValue_object:
  assumes "c' \<noteq> CHR ''}''" and "\<not> isWS c'"
    and "parseMembersWith (parseValue n) (length (c' # rest)) (c' # rest) = Some (ms, r')"
  shows "parseValue (Suc n) (CHR ''{'' # c' # rest) = Some (makeObject ms, r')"
  using assms
  by (simp add: skipWS_keep isWS_simps del: parseMembersWith.simps)

lemma parseValue_array:
  assumes "c' \<noteq> CHR '']''" and "\<not> isWS c'"
    and "parseElementsWith (parseValue n) (length (c' # rest)) (c' # rest) = Some (vs, r')"
  shows "parseValue (Suc n) (CHR ''['' # c' # rest) = Some (JArray vs, r')"
  using assms
  by (simp add: skipWS_keep isWS_simps del: parseElementsWith.simps)

lemma parseValue_task:
  "parseValue (Suc (Suc n)) (JSON_stringify (taskToJS task) @ r) = Some (taskToJS task, r)"
proof -
  obtain cs where cs: "taskMembersText task = dquote # cs" and len: "4 \<le> length cs"
    using taskMembersText_hd by blast
  let ?inner = "dquote # (cs @ CHR ''}'' # r)"
  have inner: "taskMembersText task @ CHR ''}'' # r = ?inner"
    by (simp add: cs)
  define m where "m = length ?inner - 4"
  from len have m: "length ?inner = Suc (Suc (Suc (Suc m)))"
    by (simp add: m_def)
  have d: "dquote \<noteq> CHR ''}''"
    by (simp add: dquote_def)
  have pm: "parseMembersWith (parseValue (Suc n)) (length ?inner) ?inner
      = Some ([(''id'', JNumber (task_id task)), (''title'', JString (title task)),
               (''dueDate'', JString (dueDate task)), (''isDone'', JBool (isDone task))], r)"
    unfolding m using parseMembersWith_task [of n m task r] by (simp only: inner)
  have "parseValue (Suc (Suc n)) (CHR ''{'' # ?inner)
      = Some (makeObject [(''id'', JNumber (task_id task)), (''title'', JString (title task)),
               (''dueDate'', JString (dueDate task)), (''isDone'', JBool (isDone task))], r)"
    by (rule parseValue_object [OF d isWS_simps(1) pm])
  then have "parseValue (Suc (Suc n)) (CHR ''{'' # ?inner) = Some (taskToJS task, r)"
    by (simp only: makeObject_task taskToJS_def)
  moreover have "JSON_stringify (taskToJS task) @ r = CHR ''{'' # ?inner"
    by (simp add: JSON_stringify_task inner)
  ultimately show ?thesis by (simp only:)
qed

lemma JSON_stringify_task_hd: "\<exists>cs. JSON_stringify (taskToJS task) = CHR ''{'' # cs"
  by (simp add: JSON_stringify_task)

lemma parseElementsWith_tasks:
  "ts \<noteq> [] \<Longrightarrow> length ts \<le> m \<Longrightarrow>
   parseElementsWith (parseValue (Suc (Suc n))) m
     (commaJoin (map JSON_stringify (map taskToJS ts)) @ CHR '']'' # r)
   = Some (map taskToJS ts, r)"
proof (induction ts arbitrary: m)
  case Nil
  then show ?case by simp
next
  case (Cons task ts)
  then obtain m' where m: "m = Suc m'" and m': "length ts \<le> m'"
    by (cases m) auto
  show ?case
  proof (cases ts)
    case Nil
    have s: "skipWS (CHR '']'' # r) = CHR '']'' # r"
      by (rule skipWS_keep) (rule isWS_simps)
    from Nil show ?thesis
      by (simp add: m parseValue_task s del: parseValue.simps)
  next
    case (Cons task' ts')
    let ?rest = "commaJoin (map JSON_stringify (map taskToJS ts)) @ CHR '']'' # r"
    have s: "skipWS (CHR '','' # ?rest) = CHR '','' # ?rest"
      by (rule skipWS_keep) (rule isWS_simps)
    from Cons have ne: "ts \<noteq> []" by simp
    have ih: "parseElementsWith (parseValue (Suc (Suc n))) m' ?rest = Some (map taskToJS ts, r)"
      by (rule Cons.IH [OF ne m'])
    have v: "parseValue (Suc (Suc n)) (JSON_stringify (taskToJS task) @ CHR '','' # ?rest)
        = Some (taskToJS task, CHR '','' # ?rest)"
      by (rule parseValue_task)
    have split: "commaJoin (map JSON_stringify (map taskToJS (task # ts))) @ CHR '']'' # r
        = JSON_stringify (taskToJS task) @ CHR '','' # ?rest"
      using Cons by simp
    show ?thesis
      unfolding split m parseElementsWith.simps
      by (simp only: v option.case prod.case s list.case ih) simp
  qed
qed

lemma commaJoin_length: "(\<forall>x \<in> set xs. x \<noteq> []) \<Longrightarrow> length xs \<le> length (commaJoin xs)"
proof (induction xs rule: commaJoin.induct)
  case (3 x y ys)
  then have "x \<noteq> []" by simp
  then have "1 \<le> length x" by (cases x) auto
  with 3 show ?case by simp
qed (auto simp add: Suc_le_eq)

lemma JSON_parse_tasks: "JSON_parse (JSON_stringify (tasksToJS ts)) = Inr (tasksToJS ts)"
proof (cases ts)
  case Nil
  then show ?thesis
    by (simp add: JSON_parse_def tasksToJS_def skipWS_keep isWS_simps skipWS_def)
next
  case (Cons task ts')
  let ?body = "commaJoin (map JSON_stringify (map taskToJS ts))"
  obtain cs where cs: "JSON_stringify (taskToJS task) = CHR ''{'' # cs"
    using JSON_stringify_task_hd by blast
  from Cons cs obtain body' where body: "?body = CHR ''{'' # body'"
    by (cases ts') auto
  let ?inner = "CHR ''{'' # (body' @ '']'')"
  have inner: "?body @ CHR '']'' # [] = ?inner"
    using body by simp
  have nonempty: "\<forall>x \<in> set (map JSON_stringify (map taskToJS ts)). x \<noteq> []"
    by (auto simp add: JSON_stringify_task)
  have "length ts \<le> length ?body"
    using commaJoin_length [OF nonempty] by simp
  then have len: "length ts \<le> length ?inner"
    using body by simp
  from Cons have ne: "ts \<noteq> []" by simp
  have whole: "JSON_stringify (tasksToJS ts) = CHR ''['' # ?inner"
    by (simp only: tasksToJS_def JSON_stringify.simps body append_Cons)
  define k where "k = length ?inner - 1"
  have fuel: "Suc (length (CHR ''['' # ?inner)) = Suc (Suc (Suc k))"
    by (simp add: k_def)
  have pe: "parseElementsWith (parseValue (Suc (Suc k))) (length ?inner) ?inner
      = Some (map taskToJS ts, [])"
    using parseElementsWith_tasks [OF ne len, of k "[]"] by (simp only: inner)
  have "parseValue (Suc (Suc (Suc k))) (CHR ''['' # ?inner) = Some (JArray (map taskToJS ts), [])"
    by (rule parseValue_array [OF _ _ pe]) (simp_all add: isWS_simps)
  then have "parseValue (Suc (length (CHR ''['' # ?inner))) (CHR ''['' # ?inner)
      = Some (tasksToJS ts, [])"
    by (simp only: fuel tasksToJS_def)
  then show ?thesis
    unfolding JSON_parse_def whole by (simp add: skipWS_def del: parseValue.simps)
qed

section \<open>Properties of the persistence\<close>

lemma taskToJS_inj: "taskToJS a = taskToJS b \<Longrightarrow> a = b"
  by (simp add: taskToJS_def)

lemma tasksToJS_inj: "tasksToJS c' = tasksToJS c \<Longrightarrow> c' = c"
proof -
  assume "tasksToJS c' = tasksToJS c"
  then have "map taskToJS c' = map taskToJS c"
    by (simp add: tasksToJS_def)
  moreover have "inj taskToJS"
    by (rule injI) (rule taskToJS_inj)
  ultimately show "c' = c"
    by (simp add: inj_map_eq_map)
qed

lemma isTaskArray_tasksToJS: "isTaskArray (tasksToJS c)"
  by (induction c) (simp_all add: tasksToJS_def taskToJS_def)

lemma JSON_stringify_tasks_nonempty: "JSON_stringify (tasksToJS c) \<noteq> []"
  by (simp add: tasksToJS_def)

lemma load_after_setItem:
  assumes "accessible ls" and "JSON_parse t = Inr v" and "t \<noteq> []"
  shows "load (ls\<lparr>items := (items ls)(''tasks'' \<mapsto> t)\<rparr>) = Inr v"
  using assms by (simp add: load_def getItem_def try_catch_def)

text \<open>
  Claim C4. Saving a collection and then loading returns the collection. For every
  collection and every storage that can be read and has room for the text, whatever the
  slot held before, \<open>save\<close> succeeds, the slot then holds the text of the collection, and
  \<open>load\<close> on the storage that \<open>save\<close> leaves returns the value of the collection, which
  stands for no other collection. The text of every collection parses back to it.
\<close>

theorem save_load_roundtrip:
  "(accessible ls \<and> length (JSON_stringify (tasksToJS c)) \<le> quota ls \<longrightarrow>
      (\<exists>ls'. save c ls = Inr ls'
         \<and> items ls' = (items ls)(''tasks'' \<mapsto> JSON_stringify (tasksToJS c))
         \<and> load ls' = Inr (tasksToJS c)))
   \<and> JSON_parse (JSON_stringify (tasksToJS c)) = Inr (tasksToJS c)
   \<and> (\<forall>c'. tasksToJS c' = tasksToJS c \<longrightarrow> c' = c)"
proof -
  let ?t = "JSON_stringify (tasksToJS c)"
  have parsed: "JSON_parse ?t = Inr (tasksToJS c)"
    by (rule JSON_parse_tasks)
  have "\<exists>ls'. save c ls = Inr ls' \<and> items ls' = (items ls)(''tasks'' \<mapsto> ?t)
      \<and> load ls' = Inr (tasksToJS c)"
    if acc: "accessible ls" and room: "length ?t \<le> quota ls"
  proof -
    from acc room have "save c ls = Inr (ls\<lparr>items := (items ls)(''tasks'' \<mapsto> ?t)\<rparr>)"
      by (simp add: save_def setItem_def)
    moreover have "load (ls\<lparr>items := (items ls)(''tasks'' \<mapsto> ?t)\<rparr>) = Inr (tasksToJS c)"
      by (rule load_after_setItem [OF acc parsed JSON_stringify_tasks_nonempty])
    ultimately show ?thesis by simp
  qed
  with parsed tasksToJS_inj show ?thesis by blast
qed

theorem save_load_roundtrip_witness:
  "accessible usedStorage
   \<and> length (JSON_stringify (tasksToJS twoTasks)) \<le> quota usedStorage
   \<and> load usedStorage = Inr (tasksToJS dupTasks)
   \<and> (\<exists>ls'. save twoTasks usedStorage = Inr ls' \<and> load ls' = Inr (tasksToJS twoTasks))
   \<and> JSON_stringify (tasksToJS twoTasks) = twoTasksText"
proof -
  have a: "accessible usedStorage"
    by (simp add: usedStorage_def emptyStorage_def)
  have t: "JSON_stringify (tasksToJS twoTasks) = twoTasksText"
    by code_simp
  have "length twoTasksText \<le> 5000000"
    by (simp add: twoTasksText_def)
  with t have b: "length (JSON_stringify (tasksToJS twoTasks)) \<le> quota usedStorage"
    by (simp add: usedStorage_def emptyStorage_def)
  have old: "load usedStorage = Inr (tasksToJS dupTasks)"
    by (simp add: usedStorage_def emptyStorage_def load_def getItem_def try_catch_def
        JSON_parse_tasks JSON_stringify_tasks_nonempty)
  from save_load_roundtrip [of usedStorage twoTasks] a b
  have "\<exists>ls'. save twoTasks usedStorage = Inr ls' \<and> load ls' = Inr (tasksToJS twoTasks)"
    by blast
  with a b old t show ?thesis by (intro conjI)
qed

lemma load_fail_soft:
  "(\<exists>v. load ls = Inr v)
   \<and> (getItem ls ''tasks'' = Inl e \<longrightarrow> load ls = Inr (JArray []))
   \<and> (getItem ls ''tasks'' = Inr None \<longrightarrow> load ls = Inr (JArray []))
   \<and> (getItem ls ''tasks'' = Inr (Some []) \<longrightarrow> load ls = Inr (JArray []))
   \<and> (getItem ls ''tasks'' = Inr (Some t) \<and> JSON_parse t = Inl e' \<longrightarrow>
        load ls = Inr (JArray []))
   \<and> (getItem ls ''tasks'' = Inr (Some t) \<and> t \<noteq> [] \<and> JSON_parse t = Inr v \<longrightarrow>
        load ls = Inr v)"
  by (auto simp add: load_def try_catch_def split: sum.splits option.splits)

text \<open>
  Claim C5. \<open>load\<close> should never throw and should return the empty collection for a stored
  value that is missing, unreadable, malformed or of the wrong shape. It does so in the
  first three cases (\<open>load_fail_soft\<close>), but a stored text that is well-formed JSON of
  another shape comes back as it is: for the texts \<open>{}\<close>, \<open>null\<close> and \<open>42\<close> the result is an
  object, null and a number, none of them an array of task records and none the empty
  collection, and the first rendering throws a TypeError where it filters the collection.
\<close>

theorem load_keeps_wrong_shape:
  "load (emptyStorage\<lparr>items := [''tasks'' \<mapsto> ''{}'']\<rparr>) = Inr (JObject [])
   \<and> load (emptyStorage\<lparr>items := [''tasks'' \<mapsto> ''null'']\<rparr>) = Inr JNull
   \<and> load (emptyStorage\<lparr>items := [''tasks'' \<mapsto> ''42'']\<rparr>) = Inr (JNumber 42)
   \<and> \<not> isTaskArray (JObject []) \<and> \<not> isTaskArray JNull \<and> \<not> isTaskArray (JNumber 42)
   \<and> load (emptyStorage\<lparr>items := [''tasks'' \<mapsto> ''{}'']\<rparr>) \<noteq> Inr (JArray [])
   \<and> tasks_filter (\<lambda>task. True) (JObject []) = Inl TypeError
   \<and> tasks_filter (\<lambda>task. True) JNull = Inl TypeError
   \<and> tasks_filter (\<lambda>task. True) (JNumber 42) = Inl TypeError"
proof -
  have p: "JSON_parse ''{}'' = Inr (JObject [])" "JSON_parse ''null'' = Inr JNull"
    "JSON_parse ''42'' = Inr (JNumber 42)"
    by code_simp+
  have "load (emptyStorage\<lparr>items := [''tasks'' \<mapsto> ''{}'']\<rparr>) = Inr (JObject [])"
    "load (emptyStorage\<lparr>items := [''tasks'' \<mapsto> ''null'']\<rparr>) = Inr JNull"
    "load (emptyStorage\<lparr>items := [''tasks'' \<mapsto> ''42'']\<rparr>) = Inr (JNumber 42)"
    by (simp_all add: load_def getItem_def emptyStorage_def try_catch_def p)
  then show ?thesis
    by (simp add: tasks_filter_def)
qed

end
